theory Spec2Isabelle
  imports Complex_Main
begin

section \<open>Python values used by the FHD reader\<close>

text \<open>
  Exceptions of the Python source are values: \<open>ValueError\<close> carries the message of the
  \<^verbatim>\<open>raise ValueError(...)\<close> statement; \<open>TypeError\<close>, \<open>IndexError\<close> and \<open>KeyError\<close> are
  the ones the interpreter raises on \<^verbatim>\<open>None + 1\<close>, \<^verbatim>\<open>xs[None]\<close>, an index out of range
  and a missing dictionary key.
\<close>

datatype py_error = ValueError string | TypeError | IndexError | KeyError

text \<open>
  Strings are lists of characters with code points below 256. \<open>is_space\<close> is
  \<^verbatim>\<open>str.isspace\<close> on that range: tab, line feed, vertical tab, form feed, carriage
  return, the four separators 0x1C-0x1F, space, NEL (0x85) and the no-break space (0xA0).
\<close>

definition is_space :: "char \<Rightarrow> bool" where
  "is_space c = ((of_char c :: nat) \<in> {9, 10, 11, 12, 13, 28, 29, 30, 31, 32, 133, 160})"

definition startswith :: "string \<Rightarrow> string \<Rightarrow> bool" where
  "startswith s p = (take (length p) s = p)"

definition endswith :: "string \<Rightarrow> string \<Rightarrow> bool" where
  "endswith s p = (length p \<le> length s \<and> drop (length s - length p) s = p)"

definition rstrip :: "string \<Rightarrow> string" where
  "rstrip s = rev (dropWhile is_space (rev s))"

definition lstrip :: "string \<Rightarrow> string" where
  "lstrip s = dropWhile is_space s"

definition strip :: "string \<Rightarrow> string" where
  "strip s = lstrip (rstrip s)"

text \<open>\<^verbatim>\<open>line.replace("\t", " ")\<close>: every tab becomes one space.\<close>

definition replace_tab :: "string \<Rightarrow> string" where
  "replace_tab s = map (\<lambda>c. if c = CHR 0x09 then CHR '' '' else c) s"

text \<open>
  \<^verbatim>\<open>str.split()\<close> without arguments: the maximal runs of non-whitespace characters.
  \<open>split_acc cur s\<close> scans \<open>s\<close> with the token read so far in \<open>cur\<close>.
\<close>

fun split_acc :: "string \<Rightarrow> string \<Rightarrow> string list" where
  "split_acc cur [] = (if cur = [] then [] else [cur])"
| "split_acc cur (c # cs) =
     (if is_space c then (if cur = [] then split_acc [] cs else cur # split_acc [] cs)
      else split_acc (cur @ [c]) cs)"

definition split_ws :: "string \<Rightarrow> string list" where
  "split_ws s = split_acc [] s"

text \<open>\<^verbatim>\<open>sep.join(xs)\<close>.\<close>

fun join :: "string \<Rightarrow> string list \<Rightarrow> string" where
  "join sep [] = []"
| "join sep [x] = x"
| "join sep (x # y # ys) = x @ sep @ join sep (y # ys)"

text \<open>
  \<^verbatim>\<open>xs[a:b]\<close> for non-negative \<open>a\<close> and \<open>b\<close>: the elements at the indices \<open>a \<le> i < b\<close>
  that exist, none when \<open>b \<le> a\<close>. \<^verbatim>\<open>xs[a:None]\<close> is \<open>drop a xs\<close>.
\<close>

definition slice :: "'a list \<Rightarrow> nat \<Rightarrow> nat \<Rightarrow> 'a list" where
  "slice xs a b = take (b - a) (drop a xs)"

section \<open>\<open>get_fhd_history\<close> (fhd.py, lines 18-72)\<close>

text \<open>
  The four locations of the scan, \<open>None\<close> until a line with the marker has been read.
\<close>

record locs =
  main_loc :: "nat option"
  command_loc :: "nat option"
  obs_loc :: "nat option"
  user_line :: "nat option"

definition no_locs :: locs where
  "no_locs = \<lparr>main_loc = None, command_loc = None, obs_loc = None, user_line = None\<rparr>"

definition all_located :: "locs \<Rightarrow> bool" where
  "all_located st =
     (main_loc st \<noteq> None \<and> command_loc st \<noteq> None \<and> obs_loc st \<noteq> None \<and> user_line st \<noteq> None)"

text \<open>One pass of the loop body (lines 45-52): four independent \<^verbatim>\<open>if\<close>s.\<close>

definition scan_line :: "locs \<Rightarrow> nat \<Rightarrow> string \<Rightarrow> locs" where
  "scan_line st ind line =
     (let st1 = (if startswith line ''##MAIN'' then st\<lparr>main_loc := Some ind\<rparr> else st);
          st2 = (if startswith line ''##COMMAND_LINE'' then st1\<lparr>command_loc := Some ind\<rparr> else st1);
          st3 = (if startswith line ''##OBS'' then st2\<lparr>obs_loc := Some ind\<rparr> else st2)
      in (if startswith line ''User'' then st3\<lparr>user_line := Some ind\<rparr> else st3))"

text \<open>
  The loop \<^verbatim>\<open>for ind, line in enumerate(settings_lines)\<close> with its \<^verbatim>\<open>break\<close> once all
  four locations are set (lines 44-59).
\<close>

fun scan_lines :: "locs \<Rightarrow> nat \<Rightarrow> string list \<Rightarrow> locs" where
  "scan_lines st ind [] = st"
| "scan_lines st ind (line # rest) =
     (let st' = scan_line st ind line
      in if all_located st' then st' else scan_lines st' (Suc ind) rest)"

text \<open>Line 65: \<^verbatim>\<open>line.rstrip().replace("\t", " ")\<close>.\<close>

definition clean_line :: "string \<Rightarrow> string" where
  "clean_line line = replace_tab (rstrip line)"

text \<open>What the function returns: \<^verbatim>\<open>history\<close>, or the pair \<^verbatim>\<open>history, user\<close>.\<close>

datatype history_result = History string | HistoryUser string string

text \<open>
  \<open>settings_lines\<close> is the result of \<^verbatim>\<open>f.readlines()\<close>. Lines 61-72: \<^verbatim>\<open>main_loc + 1\<close>
  and \<^verbatim>\<open>command_loc + 1\<close> raise \<open>TypeError\<close> on \<open>None\<close>, a \<open>None\<close> upper bound of a
  slice means "to the end", \<^verbatim>\<open>settings_lines[None]\<close> raises \<open>TypeError\<close> and
  \<^verbatim>\<open>.split()[1]\<close> raises \<open>IndexError\<close> when the line has fewer than two tokens. The
  user is extracted before \<open>return_user\<close> is looked at.
\<close>

definition get_fhd_history :: "string list \<Rightarrow> bool \<Rightarrow> py_error + history_result" where
  "get_fhd_history settings_lines return_user =
     (let st = scan_lines no_locs 0 settings_lines in
      case main_loc st of
        None \<Rightarrow> Inl TypeError
      | Some m \<Rightarrow>
          let main_lines = (case command_loc st of
                              None \<Rightarrow> drop (m + 1) settings_lines
                            | Some c \<Rightarrow> slice settings_lines (m + 1) c)
          in (case command_loc st of
                None \<Rightarrow> Inl TypeError
              | Some c \<Rightarrow>
                  let command_lines = (case obs_loc st of
                                         None \<Rightarrow> drop (c + 1) settings_lines
                                       | Some ob \<Rightarrow> slice settings_lines (c + 1) ob);
                      history_lines = [''FHD history\<newline>''] @ main_lines @ command_lines;
                      history = join ''\<newline>'' (map clean_line history_lines)
                  in (case user_line st of
                        None \<Rightarrow> Inl TypeError
                      | Some u \<Rightarrow>
                          if u < length settings_lines then
                            (let toks = split_ws (settings_lines ! u)
                             in if length toks < 2 then Inl IndexError
                                else if return_user then Inr (HistoryUser history (toks ! 1))
                                else Inr (History history))
                          else Inl IndexError)))"

text \<open>
  The helpers and predicates below are used to state and prove the properties of
  \<open>get_fhd_history\<close>. \<open>scan_all\<close> is the loop without its \<^verbatim>\<open>break\<close>;
  \<open>tracked f p\<close> says that the location \<open>f\<close> follows the marker \<open>p\<close>.
\<close>

fun scan_all :: "locs \<Rightarrow> nat \<Rightarrow> string list \<Rightarrow> locs" where
  "scan_all st ind [] = st"
| "scan_all st ind (line # rest) = scan_all (scan_line st ind line) (Suc ind) rest"

definition tracked :: "(locs \<Rightarrow> nat option) \<Rightarrow> string \<Rightarrow> bool" where
  "tracked f p =
     (\<forall>st ind line. f (scan_line st ind line) = (if startswith line p then Some ind else f st))"

text \<open>
  \<open>seen_by ls p j\<close>: one of the lines \<open>0..j\<close> begins with \<open>p\<close>. \<open>stop_line ls k\<close>: line
  \<open>k\<close> is the first line by which all four markers have been read, where the loop
  breaks. \<open>last_marker ls p k i\<close>: line \<open>i\<close> is the last line up to \<open>k\<close> that begins with
  \<open>p\<close>. \<open>between ls a b\<close>: the lines strictly between the lines \<open>a\<close> and \<open>b\<close>.
\<close>

definition seen_by :: "string list \<Rightarrow> string \<Rightarrow> nat \<Rightarrow> bool" where
  "seen_by ls p j = (\<exists>l \<in> set (take (Suc j) ls). startswith l p)"

definition all_seen_by :: "string list \<Rightarrow> nat \<Rightarrow> bool" where
  "all_seen_by ls j =
     (seen_by ls ''##MAIN'' j \<and> seen_by ls ''##COMMAND_LINE'' j \<and> seen_by ls ''##OBS'' j \<and>
      seen_by ls ''User'' j)"

definition stop_line :: "string list \<Rightarrow> nat \<Rightarrow> bool" where
  "stop_line ls k = (k < length ls \<and> all_seen_by ls k \<and> (\<forall>j<k. \<not> all_seen_by ls j))"

definition last_marker :: "string list \<Rightarrow> string \<Rightarrow> nat \<Rightarrow> nat \<Rightarrow> bool" where
  "last_marker ls p k i =
     (i \<le> k \<and> i < length ls \<and> startswith (ls ! i) p \<and>
      (\<forall>l \<in> set (slice ls (Suc i) (Suc k)). \<not> startswith l p))"

definition between :: "string list \<Rightarrow> nat \<Rightarrow> nat \<Rightarrow> string list" where
  "between ls a b = map (\<lambda>i. ls ! i) [Suc a..<b]"

text \<open>
  The history the specification describes for the marker lines \<open>m\<close>, \<open>c\<close> and \<open>ob\<close>: the
  header line, then the lines between \<open>m\<close> and \<open>c\<close> and those between \<open>c\<close> and \<open>ob\<close>, each with
  its tabs replaced by spaces and its trailing whitespace stripped, joined by line feeds.
\<close>

definition history_text :: "string list \<Rightarrow> nat \<Rightarrow> nat \<Rightarrow> nat \<Rightarrow> string" where
  "history_text ls m c ob =
     join ''\<newline>''
       (''FHD history'' # map (\<lambda>l. rstrip (replace_tab l)) (between ls m c @ between ls c ob))"

section \<open>The file list of \<open>read_fhd\<close> (fhd.py, lines 163-234)\<close>

text \<open>
  \<^verbatim>\<open>str.lower\<close> on code points below 256: the ASCII capitals and the Latin-1 capitals
  (0xC0-0xDE without the multiplication sign 0xD7) move up by 32.
\<close>

definition lower_char :: "char \<Rightarrow> char" where
  "lower_char c =
     (let n = (of_char c :: nat)
      in if (65 \<le> n \<and> n \<le> 90) \<or> (192 \<le> n \<and> n \<le> 222 \<and> n \<noteq> 215) then char_of (n + 32) else c)"

definition lower :: "string \<Rightarrow> string" where
  "lower s = map lower_char s"

text \<open>
  The local variables of lines 163-168. \<open>datafiles\<close> is the dictionary from the
  polarization string to the file name, in insertion order.
\<close>

record fhd_files =
  datafiles :: "(string \<times> string) list"
  params_file :: "string option"
  obs_file :: "string option"
  flags_file :: "string option"
  layout_file :: "string option"
  settings_file :: "string option"

definition no_files :: fhd_files where
  "no_files = \<lparr>datafiles = [], params_file = None, obs_file = None, flags_file = None,
                layout_file = None, settings_file = None\<rparr>"

definition data_name :: "bool \<Rightarrow> string" where
  "data_name use_model = (if use_model then ''_vis_model_'' else ''_vis_'')"

text \<open>
  \<open>add_datafile\<close> is the body shared by the four polarization branches (lines 175-177
  and their three copies): the key must not be in the dictionary yet. \<open>add_file\<close> is the
  \<^verbatim>\<open>if\<close>/\<^verbatim>\<open>elif\<close> chain of lines 174-214 with its cases in the source's order.
\<close>

definition add_datafile :: "string \<Rightarrow> fhd_files \<Rightarrow> string \<Rightarrow> py_error + fhd_files" where
  "add_datafile pol st file =
     (if pol \<in> set (map fst (datafiles st))
      then Inl (ValueError (''multiple '' @ pol @ '' datafiles in filelist''))
      else Inr (st\<lparr>datafiles := datafiles st @ [(pol, file)]\<rparr>))"

definition add_file :: "string \<Rightarrow> fhd_files \<Rightarrow> string \<Rightarrow> py_error + fhd_files" where
  "add_file dn st file =
     (if endswith (lower file) (dn @ ''xx.sav'') then add_datafile ''xx'' st file
      else if endswith (lower file) (dn @ ''yy.sav'') then add_datafile ''yy'' st file
      else if endswith (lower file) (dn @ ''xy.sav'') then add_datafile ''xy'' st file
      else if endswith (lower file) (dn @ ''yx.sav'') then add_datafile ''yx'' st file
      else if endswith (lower file) ''_params.sav'' then
        (if params_file st \<noteq> None then Inl (ValueError ''multiple params files in filelist'')
         else Inr (st\<lparr>params_file := Some file\<rparr>))
      else if endswith (lower file) ''_obs.sav'' then
        (if obs_file st \<noteq> None then Inl (ValueError ''multiple obs files in filelist'')
         else Inr (st\<lparr>obs_file := Some file\<rparr>))
      else if endswith (lower file) ''_flags.sav'' then
        (if flags_file st \<noteq> None then Inl (ValueError ''multiple flags files in filelist'')
         else Inr (st\<lparr>flags_file := Some file\<rparr>))
      else if endswith (lower file) ''_layout.sav'' then
        (if layout_file st \<noteq> None then Inl (ValueError ''multiple layout files in filelist'')
         else Inr (st\<lparr>layout_file := Some file\<rparr>))
      else if endswith (lower file) ''_settings.txt'' then
        (if settings_file st \<noteq> None then Inl (ValueError ''multiple settings files in filelist'')
         else Inr (st\<lparr>settings_file := Some file\<rparr>))
      else Inr st)"

text \<open>The loop \<^verbatim>\<open>for file in filelist\<close>: the first \<^verbatim>\<open>raise\<close> ends it.\<close>

fun add_files :: "string \<Rightarrow> fhd_files \<Rightarrow> string list \<Rightarrow> py_error + fhd_files" where
  "add_files dn st [] = Inr st"
| "add_files dn st (file # rest) =
     (case add_file dn st file of Inl e \<Rightarrow> Inl e | Inr st' \<Rightarrow> add_files dn st' rest)"

text \<open>
  Lines 216-234: the four fatal checks in the source's order, then the two warnings.
  The result is the list of warnings issued.
\<close>

definition check_required :: "fhd_files \<Rightarrow> bool \<Rightarrow> py_error + string list" where
  "check_required st read_data =
     (if length (datafiles st) < 1 \<and> read_data then
        Inl (ValueError ''No data files included in file list and read_data is True.'')
      else if obs_file st = None \<and> \<not> read_data then
        Inl (ValueError ''No obs file included in file list and read_data is False.'')
      else if params_file st = None then
        Inl (ValueError ''No params file included in file list'')
      else if flags_file st = None then
        Inl (ValueError ''No flags file included in file list'')
      else Inr
        ((if layout_file st = None
          then [''No layout file included in file list, antenna_postions will not be defined.'']
          else []) @
         (if settings_file st = None then [''No settings file included in file list''] else [])))"

definition read_fhd_filelist ::
  "string list \<Rightarrow> bool \<Rightarrow> bool \<Rightarrow> py_error + (fhd_files \<times> string list)" where
  "read_fhd_filelist filelist use_model read_data =
     (case add_files (data_name use_model) no_files filelist of
        Inl e \<Rightarrow> Inl e
      | Inr st \<Rightarrow>
          (case check_required st read_data of
             Inl e \<Rightarrow> Inl e
           | Inr warnings \<Rightarrow> Inr (st, warnings)))"

text \<open>
  The roles a file name can have, to state the properties of the file list. A name has
  the role whose suffix it ends with, letter case ignored; \<open>file_role\<close> looks the
  suffixes up in the order of the source's chain. \<open>role_count\<close> counts the files of a role.
\<close>

datatype role = DataXX | DataYY | DataXY | DataYX | Params | Obs | Flags | Layout | Settings

fun role_suffix :: "string \<Rightarrow> role \<Rightarrow> string" where
  "role_suffix dn DataXX = dn @ ''xx.sav''"
| "role_suffix dn DataYY = dn @ ''yy.sav''"
| "role_suffix dn DataXY = dn @ ''xy.sav''"
| "role_suffix dn DataYX = dn @ ''yx.sav''"
| "role_suffix dn Params = ''_params.sav''"
| "role_suffix dn Obs = ''_obs.sav''"
| "role_suffix dn Flags = ''_flags.sav''"
| "role_suffix dn Layout = ''_layout.sav''"
| "role_suffix dn Settings = ''_settings.txt''"

definition all_roles :: "role list" where
  "all_roles = [DataXX, DataYY, DataXY, DataYX, Params, Obs, Flags, Layout, Settings]"

definition data_roles :: "role set" where
  "data_roles = {DataXX, DataYY, DataXY, DataYX}"

definition file_role :: "string \<Rightarrow> string \<Rightarrow> role option" where
  "file_role dn file = find (\<lambda>r. endswith (lower file) (role_suffix dn r)) all_roles"

definition role_count :: "string \<Rightarrow> string list \<Rightarrow> role \<Rightarrow> nat" where
  "role_count dn filelist r = length (filter (\<lambda>file. file_role dn file = Some r) filelist)"

definition has_role :: "string \<Rightarrow> string list \<Rightarrow> role \<Rightarrow> bool" where
  "has_role dn filelist r = (\<exists>file \<in> set filelist. file_role dn file = Some r)"

fun role_name :: "role \<Rightarrow> string" where
  "role_name DataXX = ''xx datafiles''"
| "role_name DataYY = ''yy datafiles''"
| "role_name DataXY = ''xy datafiles''"
| "role_name DataYX = ''yx datafiles''"
| "role_name Params = ''params files''"
| "role_name Obs = ''obs files''"
| "role_name Flags = ''flags files''"
| "role_name Layout = ''layout files''"
| "role_name Settings = ''settings files''"

text \<open>\<open>taken st r\<close>: the variable of role \<open>r\<close> has been set.\<close>

fun taken :: "fhd_files \<Rightarrow> role \<Rightarrow> bool" where
  "taken st DataXX = (''xx'' \<in> set (map fst (datafiles st)))"
| "taken st DataYY = (''yy'' \<in> set (map fst (datafiles st)))"
| "taken st DataXY = (''xy'' \<in> set (map fst (datafiles st)))"
| "taken st DataYX = (''yx'' \<in> set (map fst (datafiles st)))"
| "taken st Params = (params_file st \<noteq> None)"
| "taken st Obs = (obs_file st \<noteq> None)"
| "taken st Flags = (flags_file st \<noteq> None)"
| "taken st Layout = (layout_file st \<noteq> None)"
| "taken st Settings = (settings_file st \<noteq> None)"

definition dup_message :: "role \<Rightarrow> string" where
  "dup_message r = ''multiple '' @ role_name r @ '' in filelist''"

text \<open>
  \<open>known_keys st\<close>: the keys of \<open>datafiles\<close> are polarization strings of the chain.
  \<open>clash dn st fs r\<close>: role \<open>r\<close> is set already and \<open>fs\<close> has a file of it, or \<open>fs\<close> has
  two files of it.
\<close>

definition known_keys :: "fhd_files \<Rightarrow> bool" where
  "known_keys st = (\<forall>k \<in> set (map fst (datafiles st)). k \<in> {''xx'', ''yy'', ''xy'', ''yx''})"

definition clash :: "string \<Rightarrow> fhd_files \<Rightarrow> string list \<Rightarrow> role \<Rightarrow> bool" where
  "clash dn st fs r = ((taken st r \<and> has_role dn fs r) \<or> 2 \<le> role_count dn fs r)"

definition layout_warning :: string where
  "layout_warning = ''No layout file included in file list, antenna_postions will not be defined.''"

definition settings_warning :: string where
  "settings_warning = ''No settings file included in file list''"

text \<open>\<open>add_role r st file\<close>: what the branch of role \<open>r\<close> in the chain does.\<close>

fun add_role :: "role \<Rightarrow> fhd_files \<Rightarrow> string \<Rightarrow> py_error + fhd_files" where
  "add_role DataXX st file = add_datafile ''xx'' st file"
| "add_role DataYY st file = add_datafile ''yy'' st file"
| "add_role DataXY st file = add_datafile ''xy'' st file"
| "add_role DataYX st file = add_datafile ''yx'' st file"
| "add_role Params st file =
     (if params_file st \<noteq> None then Inl (ValueError ''multiple params files in filelist'')
      else Inr (st\<lparr>params_file := Some file\<rparr>))"
| "add_role Obs st file =
     (if obs_file st \<noteq> None then Inl (ValueError ''multiple obs files in filelist'')
      else Inr (st\<lparr>obs_file := Some file\<rparr>))"
| "add_role Flags st file =
     (if flags_file st \<noteq> None then Inl (ValueError ''multiple flags files in filelist'')
      else Inr (st\<lparr>flags_file := Some file\<rparr>))"
| "add_role Layout st file =
     (if layout_file st \<noteq> None then Inl (ValueError ''multiple layout files in filelist'')
      else Inr (st\<lparr>layout_file := Some file\<rparr>))"
| "add_role Settings st file =
     (if settings_file st \<noteq> None then Inl (ValueError ''multiple settings files in filelist'')
      else Inr (st\<lparr>settings_file := Some file\<rparr>))"

section \<open>The telescope location of \<open>read_fhd\<close> (fhd.py, lines 83-102 and 345-425)\<close>

text \<open>
  Positions are triples of numbers, read as exact reals: ECEF \<open>(x, y, z)\<close> or
  \<open>(latitude, longitude, altitude)\<close>. \<open>isclose a b rtol atol\<close> is \<^verbatim>\<open>np.isclose\<close> on finite
  numbers; \<^verbatim>\<open>np.allclose\<close> asks it of every component.
\<close>

type_synonym vec3 = "real \<times> real \<times> real"

definition isclose :: "real \<Rightarrow> real \<Rightarrow> real \<Rightarrow> real \<Rightarrow> bool" where
  "isclose a b rtol atol = (\<bar>a - b\<bar> \<le> atol + rtol * \<bar>b\<bar>)"

text \<open>
  The tolerance pairs \<open>(rtol, atol)\<close> of the parameters \<^verbatim>\<open>_phase_center_ra\<close> and
  \<^verbatim>\<open>_telescope_location\<close>; they are set by the parent class, which is not part of the
  reader, and are parameters here.
\<close>

record tols =
  radian_tols :: "real \<times> real"
  loc_tols :: "real \<times> real"

text \<open>\<^verbatim>\<open>_latlonalt_close\<close> (lines 83-98) and \<^verbatim>\<open>_xyz_close\<close> (lines 100-102).\<close>

definition latlonalt_close :: "tols \<Rightarrow> vec3 \<Rightarrow> vec3 \<Rightarrow> bool" where
  "latlonalt_close t latlonalt1 latlonalt2 =
     (case latlonalt1 of (lat1, lon1, alt1) \<Rightarrow>
      case latlonalt2 of (lat2, lon2, alt2) \<Rightarrow>
        let latlon_close = (isclose lat1 lat2 (fst (radian_tols t)) (snd (radian_tols t)) \<and>
                            isclose lon1 lon2 (fst (radian_tols t)) (snd (radian_tols t)));
            alt_close = isclose alt1 alt2 (fst (loc_tols t)) (snd (loc_tols t))
        in if latlon_close \<and> alt_close then True else False)"

definition xyz_close :: "tols \<Rightarrow> vec3 \<Rightarrow> vec3 \<Rightarrow> bool" where
  "xyz_close t xyz1 xyz2 =
     (case xyz1 of (x1, y1, z1) \<Rightarrow>
      case xyz2 of (x2, y2, z2) \<Rightarrow>
        isclose x1 x2 (fst (loc_tols t)) (snd (loc_tols t)) \<and>
        isclose y1 y2 (fst (loc_tols t)) (snd (loc_tols t)) \<and>
        isclose z1 z2 (fst (loc_tols t)) (snd (loc_tols t)))"

text \<open>
  An entry of the known-telescopes registry, and the helpers of the utility and
  telescope modules that the reader calls; the modules are not part of the reader, so
  the helpers are parameters. \<open>get_telescope\<close> gives \<open>None\<close> where the Python gives
  \<^verbatim>\<open>False\<close>, and \<open>LatLonAlt_from_XYZ\<close> may raise when asked to check acceptability.
\<close>

record known_telescope =
  telescope_location :: vec3
  telescope_location_lat_lon_alt :: vec3

record helpers =
  XYZ_from_LatLonAlt :: "real \<Rightarrow> real \<Rightarrow> real \<Rightarrow> vec3"
  LatLonAlt_from_XYZ :: "vec3 \<Rightarrow> bool \<Rightarrow> py_error + vec3"
  get_telescope :: "string \<Rightarrow> known_telescope option"

text \<open>
  Which attribute the reader assigns: \<^verbatim>\<open>self.telescope_location\<close> (ECEF) or
  \<^verbatim>\<open>self.telescope_location_lat_lon_alt\<close>.
\<close>

datatype location_set = Set_location vec3 | Set_lat_lon_alt vec3

definition mismatch_message :: string where
  "mismatch_message =
     ''Telescope location derived from obs lat/lon/alt values does not match the location in the layout file.''"

definition obs_matches_message :: string where
  "obs_matches_message =
     '' Value from obs lat/lon/alt matches the known_telescopes values, using them.''"

definition layout_matches_message :: string where
  "layout_matches_message =
     '' Value from the layout file matches the known_telescopes values, using them.''"

definition neither_matches_message :: string where
  "neither_matches_message =
     '' Neither location matches the values in known_telescopes. Defaulting to using the known_telescopes values.''"

definition unknown_telescope_message :: string where
  "unknown_telescope_message =
     '' Telescope is not in known_telescopes. Defaulting to using the obs derived values.''"

text \<open>
  Lines 355-425. \<open>coordinate_frame\<close> is the decoded frame tag of the layout,
  \<open>arr_center\<close> its array center, \<open>latitude\<close>, \<open>longitude\<close> (radians) and \<open>altitude\<close> the
  position of the obs structure. The result is the assignment made and the warnings.
\<close>

definition read_fhd_location ::
  "helpers \<Rightarrow> tols \<Rightarrow> string \<Rightarrow> vec3 \<Rightarrow> real \<Rightarrow> real \<Rightarrow> real \<Rightarrow> string \<Rightarrow> bool
   \<Rightarrow> py_error + (location_set \<times> string list)" where
  "read_fhd_location h t coordinate_frame arr_center latitude longitude altitude
     telescope_name run_check_acceptability =
     (let xyz_telescope_frame = lower coordinate_frame in
      if xyz_telescope_frame = ''itrf'' then
        (let location_latlonalt = XYZ_from_LatLonAlt h latitude longitude altitude in
         case LatLonAlt_from_XYZ h arr_center run_check_acceptability of
           Inl e \<Rightarrow> Inl e
         | Inr latlonalt_arr_center \<Rightarrow>
             if xyz_close t location_latlonalt arr_center \<or>
                latlonalt_close t (latitude, longitude, altitude) latlonalt_arr_center
             then Inr (Set_location arr_center, [])
             else
               (case get_telescope h telescope_name of
                  Some telescope_obj \<Rightarrow>
                    if latlonalt_close t (latitude, longitude, altitude)
                         (telescope_location_lat_lon_alt telescope_obj)
                    then Inr (Set_location location_latlonalt,
                              [mismatch_message @ obs_matches_message])
                    else if xyz_close t arr_center (telescope_location telescope_obj)
                    then Inr (Set_location arr_center,
                              [mismatch_message @ layout_matches_message])
                    else Inr (Set_location (telescope_location telescope_obj),
                              [mismatch_message @ neither_matches_message])
                | None \<Rightarrow>
                    Inr (Set_location location_latlonalt,
                         [mismatch_message @ unknown_telescope_message])))
      else Inr (Set_lat_lon_alt (latitude, longitude, altitude), []))"

section \<open>The scalar fields of the layout (fhd.py, lines 466-484)\<close>

text \<open>
  The layout structure: the names of its fields (\<^verbatim>\<open>layout.dtype.names\<close>) and the first
  element of each field the reader looks at. Reading a field whose name is not among
  the names raises \<open>ValueError\<close>, as the record array does.
\<close>

record layout =
  names :: "string list"
  gst0_field :: real
  ref_date_field :: string
  earth_degpd_field :: real
  dut1_field :: real
  time_system_field :: string
  diameters_field :: "real list"

text \<open>The attributes of the object that lines 466-484 can assign.\<close>

record layout_attrs =
  gst0 :: "real option"
  rdate :: "string option"
  earth_omega :: "real option"
  dut1 :: "real option"
  timesys :: "string option"
  antenna_diameters :: "real list option"

definition then_do :: "'e + 'a \<Rightarrow> ('a \<Rightarrow> 'e + 'b) \<Rightarrow> 'e + 'b" where
  "then_do m f = (case m of Inl e \<Rightarrow> Inl e | Inr x \<Rightarrow> f x)"

definition get_field :: "layout \<Rightarrow> string \<Rightarrow> 'a \<Rightarrow> py_error + 'a" where
  "get_field l name v =
     (if name \<in> set (names l) then Inr v else Inl (ValueError (''no field of name '' @ name)))"

text \<open>\<^verbatim>\<open>layout_fields.remove(x)\<close>: the first occurrence goes, \<open>ValueError\<close> when there is none.\<close>

definition remove_field :: "string \<Rightarrow> string list \<Rightarrow> py_error + string list" where
  "remove_field x xs =
     (if x \<in> set xs then Inr (remove1 x xs)
      else Inl (ValueError ''list.remove(x): x not in list''))"

text \<open>\<^verbatim>\<open>str.upper\<close> on code points below 256 whose capital is below 256 too.\<close>

definition upper_char :: "char \<Rightarrow> char" where
  "upper_char c =
     (let n = (of_char c :: nat)
      in if (97 \<le> n \<and> n \<le> 122) \<or> (224 \<le> n \<and> n \<le> 254 \<and> n \<noteq> 247) then char_of (n - 32) else c)"

definition upper :: "string \<Rightarrow> string" where
  "upper s = map upper_char s"

text \<open>
  Lines 466-484, statement by statement. The test \<^verbatim>\<open>layout["ref_date"][0] != ""\<close> compares
  a byte string with a character string, which are never equal, so \<open>rdate\<close> is always
  assigned. The branch for \<open>diameters\<close> (lines 482-484) assigns \<open>timesys\<close> a second time and
  removes the field name; it assigns nothing else.
\<close>

definition read_layout_scalars ::
  "layout \<Rightarrow> string list \<Rightarrow> layout_attrs \<Rightarrow> py_error + (layout_attrs \<times> string list)" where
  "read_layout_scalars l layout_fields uv =
     then_do (get_field l ''gst0'' (gst0_field l)) (\<lambda>v.
     let uv = uv\<lparr>gst0 := Some v\<rparr> in
     then_do (remove_field ''gst0'' layout_fields) (\<lambda>layout_fields.
     then_do (get_field l ''ref_date'' (ref_date_field l)) (\<lambda>v.
     let uv = uv\<lparr>rdate := Some (lower v)\<rparr> in
     then_do (remove_field ''ref_date'' layout_fields) (\<lambda>layout_fields.
     then_do (get_field l ''earth_degpd'' (earth_degpd_field l)) (\<lambda>v.
     let uv = uv\<lparr>earth_omega := Some v\<rparr> in
     then_do (remove_field ''earth_degpd'' layout_fields) (\<lambda>layout_fields.
     then_do (get_field l ''dut1'' (dut1_field l)) (\<lambda>v.
     let uv = uv\<lparr>dut1 := Some v\<rparr> in
     then_do (remove_field ''dut1'' layout_fields) (\<lambda>layout_fields.
     then_do (get_field l ''time_system'' (time_system_field l)) (\<lambda>v.
     let uv = uv\<lparr>timesys := Some (strip (upper v))\<rparr> in
     then_do (remove_field ''time_system'' layout_fields) (\<lambda>layout_fields.
     if ''diameters'' \<in> set layout_fields then
       then_do (get_field l ''time_system'' (time_system_field l)) (\<lambda>v.
       let uv = uv\<lparr>timesys := Some (strip (upper v))\<rparr> in
       then_do (remove_field ''diameters'' layout_fields) (\<lambda>layout_fields.
       Inr (uv, layout_fields)))
     else Inr (uv, layout_fields)))))))))))"

section \<open>The uvw and data arrays of \<open>read_fhd\<close> (fhd.py, lines 263-276 and 573-622)\<close>

text \<open>
  A numpy array is its shape and its elements by index; the elements outside the shape
  are of no meaning. One-dimensional arrays are lists. Numbers are exact reals and
  complex numbers: rounding is not modelled.
\<close>

record 'a array2 =
  shape2 :: "nat \<times> nat"
  elems2 :: "nat \<Rightarrow> nat \<Rightarrow> 'a"

record 'a array4 =
  shape4 :: "nat \<times> nat \<times> nat \<times> nat"
  elems4 :: "nat \<Rightarrow> nat \<Rightarrow> nat \<Rightarrow> nat \<Rightarrow> 'a"

definition zeros2 :: "nat \<times> nat \<Rightarrow> 'a \<Rightarrow> 'a array2" where
  "zeros2 sh z = \<lparr>shape2 = sh, elems2 = (\<lambda>i j. z)\<rparr>"

definition zeros4 :: "nat \<times> nat \<times> nat \<times> nat \<Rightarrow> 'a \<Rightarrow> 'a array4" where
  "zeros4 sh z = \<lparr>shape4 = sh, elems4 = (\<lambda>i s j p. z)\<rparr>"

text \<open>An elementwise operation such as \<^verbatim>\<open>np.conj(vis)\<close>, \<^verbatim>\<open>w <= 0\<close> or \<^verbatim>\<open>np.abs(w)\<close>.\<close>

definition map_array2 :: "('a \<Rightarrow> 'b) \<Rightarrow> 'a array2 \<Rightarrow> 'b array2" where
  "map_array2 f a = \<lparr>shape2 = shape2 a, elems2 = (\<lambda>i j. f (elems2 a i j))\<rparr>"

text \<open>
  \<^verbatim>\<open>a[:, k] = col\<close>: the column must have the length of the first axis or the length one
  (it is then broadcast); numpy raises \<open>ValueError\<close> otherwise.
\<close>

definition set_column :: "'a array2 \<Rightarrow> nat \<Rightarrow> 'a list \<Rightarrow> py_error + 'a array2" where
  "set_column a k col =
     (let n = fst (shape2 a) in
      if \<not> k < snd (shape2 a) then Inl IndexError
      else if length col = n then
        Inr (a\<lparr>elems2 := (\<lambda>i j. if j = k \<and> i < n then col ! i else elems2 a i j)\<rparr>)
      else if length col = 1 then
        Inr (a\<lparr>elems2 := (\<lambda>i j. if j = k \<and> i < n then col ! 0 else elems2 a i j)\<rparr>)
      else Inl (ValueError ''could not broadcast input array''))"

text \<open>
  Lines 573-576. \<open>c\<close> is \<^verbatim>\<open>const.c.to("m/s").value\<close>, the speed of light in m/s of the
  constants library; \<open>UU\<close>, \<open>VV\<close> and \<open>WW\<close> are the arrays \<^verbatim>\<open>params["UU"][0]\<close> and so on;
  \<open>Nblts\<close> is \<^verbatim>\<open>params["UU"][0].size\<close> (line 280).
\<close>

definition read_fhd_uvw :: "real \<Rightarrow> real list \<Rightarrow> real list \<Rightarrow> real list \<Rightarrow> py_error + real array2" where
  "read_fhd_uvw c UU VV WW =
     (let Nblts = length UU;
          uvw_array = zeros2 (Nblts, 3) 0
      in then_do (set_column uvw_array 0 (map (\<lambda>u. (- 1) * u * c) UU)) (\<lambda>uvw_array.
         then_do (set_column uvw_array 1 (map (\<lambda>v. (- 1) * v * c) VV)) (\<lambda>uvw_array.
         set_column uvw_array 2 (map (\<lambda>w. (- 1) * w * c) WW))))"

text \<open>
  \<^verbatim>\<open>a[:, 0, :, pol_i] = src\<close> for a two-dimensional \<open>src\<close>: each axis of \<open>src\<close> must have the
  length of the axis it fills or the length one.
\<close>

definition set_pol :: "'a array4 \<Rightarrow> nat \<Rightarrow> 'a array2 \<Rightarrow> py_error + 'a array4" where
  "set_pol a pol_i src =
     (case shape4 a of (nb, ns, nf, np) \<Rightarrow>
      case shape2 src of (r, c) \<Rightarrow>
        if \<not> (0 < ns \<and> pol_i < np) then Inl IndexError
        else if (r = nb \<or> r = 1) \<and> (c = nf \<or> c = 1) then
          Inr (a\<lparr>elems4 := (\<lambda>i s j p.
                 if s = 0 \<and> p = pol_i \<and> i < nb \<and> j < nf
                 then elems2 src (if r = 1 then 0 else i) (if c = 1 then 0 else j)
                 else elems4 a i s j p)\<rparr>)
        else Inl (ValueError ''could not broadcast input array''))"

text \<open>
  Lines 263-276: the weights of the flags file under the key \<^verbatim>\<open>flag_arr\<close> or
  \<^verbatim>\<open>vis_weights\<close>, stored under the polarization names of the obs structure in their
  order. \<open>flag_file_dict\<close> maps a key to its list of weight arrays.
\<close>

fun store_weights ::
  "string list \<Rightarrow> nat \<Rightarrow> real array2 list \<Rightarrow> (string \<rightharpoonup> real array2)
   \<Rightarrow> py_error + (string \<rightharpoonup> real array2)" where
  "store_weights fhd_pol_list index [] vis_weights_data = Inr vis_weights_data"
| "store_weights fhd_pol_list index (w # ws) vis_weights_data =
     (if index < length fhd_pol_list
      then store_weights fhd_pol_list (Suc index) ws
             (vis_weights_data(fhd_pol_list ! index \<mapsto> w))
      else Inl IndexError)"

definition read_fhd_weights ::
  "(string \<rightharpoonup> real array2 list) \<Rightarrow> string list \<Rightarrow> py_error + (string \<rightharpoonup> real array2)" where
  "read_fhd_weights flag_file_dict fhd_pol_list =
     (case flag_file_dict ''flag_arr'' of
        Some ws \<Rightarrow> store_weights fhd_pol_list 0 ws Map.empty
      | None \<Rightarrow>
          (case flag_file_dict ''vis_weights'' of
             Some ws \<Rightarrow> store_weights fhd_pol_list 0 ws Map.empty
           | None \<Rightarrow> Inl (ValueError ''No recognized key for visibility weights in flags_file.'')))"

text \<open>Lines 578-585: the polarization numbers and the list of those with a data file.\<close>

definition lin_pol_order :: "string list" where
  "lin_pol_order = [''xx'', ''yy'', ''xy'', ''yx'']"

definition linear_pol_dict :: "string \<rightharpoonup> int" where
  "linear_pol_dict = [''xx'' \<mapsto> - 5, ''yy'' \<mapsto> - 6, ''xy'' \<mapsto> - 7, ''yx'' \<mapsto> - 8]"

definition make_pol_list :: "(string \<times> 'a) list \<Rightarrow> int list" where
  "make_pol_list vis_data =
     concat (map (\<lambda>pol. case linear_pol_dict pol of Some n \<Rightarrow> [n] | None \<Rightarrow> [])
               (filter (\<lambda>pol. pol \<in> set (map fst vis_data)) lin_pol_order))"

text \<open>\<^verbatim>\<open>xs.index(x)\<close>: the first position of \<open>x\<close>, \<open>None\<close> where the Python raises.\<close>

fun index_of :: "'a \<Rightarrow> 'a list \<Rightarrow> nat option" where
  "index_of x [] = None"
| "index_of x (y # ys) =
     (if x = y then Some 0 else (case index_of x ys of None \<Rightarrow> None | Some i \<Rightarrow> Some (Suc i)))"

record data_arrays =
  data_array :: "complex array4"
  flag_array :: "bool array4"
  nsample_array :: "real array4"

text \<open>
  The loop of lines 615-622 over \<^verbatim>\<open>vis_data.items()\<close>, the dictionary from the
  polarization string to the visibilities of its data file, as a list of its items.
\<close>

fun fill_data ::
  "int list \<Rightarrow> (string \<rightharpoonup> real array2) \<Rightarrow> (string \<times> complex array2) list \<Rightarrow> data_arrays
   \<Rightarrow> py_error + data_arrays" where
  "fill_data pol_list vis_weights_data [] arrs = Inr arrs"
| "fill_data pol_list vis_weights_data ((pol, vis) # rest) arrs =
     (case linear_pol_dict pol of
        None \<Rightarrow> Inl KeyError
      | Some num \<Rightarrow>
     (case index_of num pol_list of
        None \<Rightarrow> Inl (ValueError ''value is not in list'')
      | Some pol_i \<Rightarrow>
     (case set_pol (data_array arrs) pol_i (map_array2 cnj vis) of
        Inl e \<Rightarrow> Inl e
      | Inr d \<Rightarrow>
     (case vis_weights_data pol of
        None \<Rightarrow> Inl KeyError
      | Some w \<Rightarrow>
     (case set_pol (flag_array arrs) pol_i (map_array2 (\<lambda>x. x \<le> 0) w) of
        Inl e \<Rightarrow> Inl e
      | Inr f \<Rightarrow>
     (case set_pol (nsample_array arrs) pol_i (map_array2 abs w) of
        Inl e \<Rightarrow> Inl e
      | Inr n \<Rightarrow>
          fill_data pol_list vis_weights_data rest
            \<lparr>data_array = d, flag_array = f, nsample_array = n\<rparr>))))))"

text \<open>
  Lines 251 and 602-622 with \<^verbatim>\<open>read_data\<close> set: \<open>Npols\<close> is the number of data files,
  the three arrays start as zeros of the shape \<open>(Nblts, 1, Nfreqs, Npols)\<close>.
\<close>

definition read_fhd_data ::
  "(string \<times> complex array2) list \<Rightarrow> (string \<rightharpoonup> real array2) \<Rightarrow> nat \<Rightarrow> nat
   \<Rightarrow> py_error + data_arrays" where
  "read_fhd_data vis_data vis_weights_data Nblts Nfreqs =
     (let Npols = length vis_data;
          pol_list = make_pol_list vis_data
      in fill_data pol_list vis_weights_data vis_data
           \<lparr>data_array = zeros4 (Nblts, 1, Nfreqs, Npols) 0,
            flag_array = zeros4 (Nblts, 1, Nfreqs, Npols) False,
            nsample_array = zeros4 (Nblts, 1, Nfreqs, Npols) 0\<rparr>)"

text \<open>
  To state what the loop stores: \<open>pol_index pol_list pol\<close> is the index
  \<^verbatim>\<open>pol_list.index(linear_pol_dict[pol])\<close>; \<open>shaped\<close> says the three arrays have the shape
  \<open>(Nblts, 1, Nfreqs, Npols)\<close>; \<open>written\<close> says the slice \<open>[:, 0, :, pol_i]\<close> of the three
  arrays holds the conjugate of \<open>vis\<close>, the test \<open>w \<le> 0\<close> and the absolute value of \<open>w\<close>.
\<close>

definition pol_index :: "int list \<Rightarrow> string \<Rightarrow> nat option" where
  "pol_index pol_list pol =
     (case linear_pol_dict pol of None \<Rightarrow> None | Some num \<Rightarrow> index_of num pol_list)"

definition shaped :: "data_arrays \<Rightarrow> nat \<Rightarrow> nat \<Rightarrow> nat \<Rightarrow> bool" where
  "shaped arrs Nblts Nfreqs Npols =
     (shape4 (data_array arrs) = (Nblts, 1, Nfreqs, Npols) \<and>
      shape4 (flag_array arrs) = (Nblts, 1, Nfreqs, Npols) \<and>
      shape4 (nsample_array arrs) = (Nblts, 1, Nfreqs, Npols))"

definition written ::
  "data_arrays \<Rightarrow> nat \<Rightarrow> nat \<Rightarrow> nat \<Rightarrow> complex array2 \<Rightarrow> real array2 \<Rightarrow> bool" where
  "written arrs Nblts Nfreqs pol_i vis w =
     (\<forall>i<Nblts. \<forall>j<Nfreqs.
        elems4 (data_array arrs) i 0 j pol_i = cnj (elems2 vis i j) \<and>
        elems4 (flag_array arrs) i 0 j pol_i = (elems2 w i j \<le> 0) \<and>
        elems4 (nsample_array arrs) i 0 j pol_i = \<bar>elems2 w i j\<bar>)"

text \<open>
  \<open>readable\<close>: the polarization of the pair has a number and a position in the list, its
  weights are stored, and both arrays have the shape \<open>(Nblts, Nfreqs)\<close>. \<open>same_at\<close>: two
  triples of arrays agree at the polarization index \<open>p\<close>.
\<close>

definition readable ::
  "int list \<Rightarrow> (string \<rightharpoonup> real array2) \<Rightarrow> nat \<Rightarrow> nat \<Rightarrow> nat \<Rightarrow> string \<times> complex array2 \<Rightarrow> bool" where
  "readable pol_list vis_weights_data Nblts Nfreqs Npols pv =
     (\<exists>pol_i w. pol_index pol_list (fst pv) = Some pol_i \<and> pol_i < Npols \<and>
        vis_weights_data (fst pv) = Some w \<and>
        shape2 (snd pv) = (Nblts, Nfreqs) \<and> shape2 w = (Nblts, Nfreqs))"

definition same_at :: "data_arrays \<Rightarrow> data_arrays \<Rightarrow> nat \<Rightarrow> bool" where
  "same_at a b p =
     (\<forall>i s j. elems4 (data_array a) i s j p = elems4 (data_array b) i s j p \<and>
              elems4 (flag_array a) i s j p = elems4 (flag_array b) i s j p \<and>
              elems4 (nsample_array a) i s j p = elems4 (nsample_array b) i s j p)"

section \<open>Utility functions described by the specification\<close>

text \<open>
  The utility module (\<^verbatim>\<open>pyuvdata/utils.py\<close>) is called by the reader (line 555) and by
  the tests, but is not among the sources. The three functions of this section are
  modelled from the specification.
\<close>

subsection \<open>Baseline packing\<close>

text \<open>
  Modelled from the spec: \<^verbatim>\<open>antnums_to_baseline\<close>, which is missing from the sources.
  "legacy scheme \<open>baseline = 256*ant1 + ant2\<close> valid only when both antenna numbers \<open>\<le>255\<close>"
  and used "when \<open>attempt256\<close> requested"; "extended scheme
  \<open>baseline = 2048*ant1 + ant2 + 2**16 + 1\<close> used otherwise". The specification gives the
  antenna count \<open>Nants_telescope\<close> no part in the formulas.
\<close>

definition antnums_to_baseline :: "int \<Rightarrow> int \<Rightarrow> int \<Rightarrow> bool \<Rightarrow> int" where
  "antnums_to_baseline ant1 ant2 Nants_telescope attempt256 =
     (if attempt256 \<and> ant1 \<le> 255 \<and> ant2 \<le> 255 then 256 * ant1 + ant2
      else 2048 * ant1 + ant2 + 2 ^ 16 + 1)"

text \<open>
  Modelled from the spec: \<^verbatim>\<open>baseline_to_antnums\<close>, which is missing from the sources.
  "decoding auto-selects scheme by comparing the encoded value against the \<open>2**16\<close>
  threshold" and "decoding is the inverse": above the threshold the offset is taken off
  and the value split by 2048, otherwise it is split by 256.
\<close>

definition baseline_to_antnums :: "int \<Rightarrow> int \<Rightarrow> int \<times> int" where
  "baseline_to_antnums baseline Nants_telescope =
     (if baseline > 2 ^ 16
      then ((baseline - 2 ^ 16 - 1) div 2048, (baseline - 2 ^ 16 - 1) mod 2048)
      else (baseline div 256, baseline mod 256))"

subsection \<open>Calibration\<close>

text \<open>
  Modelled from the spec: the calibration arithmetic of \<^verbatim>\<open>uvcalibrate\<close>, which is
  missing from the sources. "\<open>gain_convention == "divide"\<close> divides the visibility by
  \<open>gain(ant1)\<cdot>conj(gain(ant2))\<close>; \<open>"multiply"\<close> multiplies by the same product; \<open>undo=True\<close>
  applies the inverse operation of whichever convention is stored." Visibilities and
  gains are exact complex numbers (rounding is not modelled); a visibility is \<open>None\<close>
  once it has been divided by a zero product and so has no finite value, and stays so.
\<close>

datatype gain_convention = Divide | Multiply

definition gain_product :: "complex \<Rightarrow> complex \<Rightarrow> complex" where
  "gain_product g1 g2 = g1 * cnj g2"

definition uvcalibrate_vis ::
  "gain_convention \<Rightarrow> bool \<Rightarrow> complex \<Rightarrow> complex \<Rightarrow> complex option \<Rightarrow> complex option" where
  "uvcalibrate_vis convention undo g1 g2 vis =
     (let p = gain_product g1 g2;
          multiply = (if undo then convention = Divide else convention = Multiply)
      in case vis of
           None \<Rightarrow> None
         | Some v \<Rightarrow> if multiply then Some (v * p) else if p = 0 then None else Some (v / p))"

text \<open>
  The visibility array is a list of samples: the two antennas, the position \<open>k\<close> on
  the other axes (time, frequency, polarization) and the value. \<open>gains a k\<close> is the gain of
  antenna \<open>a\<close> at that position.
\<close>

type_synonym 'k sample = "nat \<times> nat \<times> 'k \<times> complex option"

definition uvcalibrate ::
  "gain_convention \<Rightarrow> bool \<Rightarrow> (nat \<Rightarrow> 'k \<Rightarrow> complex) \<Rightarrow> 'k sample list \<Rightarrow> 'k sample list" where
  "uvcalibrate convention undo gains samples =
     map (\<lambda>(ant1, ant2, k, vis).
            (ant1, ant2, k, uvcalibrate_vis convention undo (gains ant1 k) (gains ant2 k) vis))
         samples"

subsection \<open>Flag application\<close>

text \<open>
  Modelled from the spec: \<^verbatim>\<open>apply_uvflag\<close>, which is missing from the sources. A flag
  array is indexed by baseline number, time index, frequency index and polarization
  index. The checks are in the order of the specification's sentences: mode, frequency
  axis, time axis, polarizations. "\<open>uvflag.mode\<close> must be "flag""; "Frequency and time axes
  must match exactly ... unless the UVFlag side has been reduced to a single frequency or
  single time (implicit broadcast ...)"; "if the two objects' polarization arrays differ,
  \<open>force_pol=True\<close> broadcasts the ... mask across all of UVData's polarizations;
  \<open>force_pol=False\<close> raises"; "\<open>unflag_first=True\<close> clears all of UVData's existing flags";
  "For baseline-pairs present in UVData but absent from a non-waterfall UVFlag,
  \<open>flag_missing=True\<close> flags them entirely; \<open>flag_missing=False\<close> leaves them untouched";
  "A waterfall-mode UVFlag ... is broadcast to every baseline"; the result "ORs a UVFlag
  mask's flags onto a UVData object's \<open>flag_array\<close>".
\<close>

datatype uvflag_mode = FlagMode | MetricMode

record uvdata_flags =
  uvd_freq_array :: "real list"
  uvd_time_array :: "real list"
  uvd_polarization_array :: "int list"
  uvd_baselines :: "int list"
  uvd_flag_array :: "int \<Rightarrow> nat \<Rightarrow> nat \<Rightarrow> nat \<Rightarrow> bool"

record uvflag =
  uvf_mode :: uvflag_mode
  uvf_waterfall :: bool
  uvf_freq_array :: "real list"
  uvf_time_array :: "real list"
  uvf_polarization_array :: "int list"
  uvf_baselines :: "int list"
  uvf_flag_array :: "int \<Rightarrow> nat \<Rightarrow> nat \<Rightarrow> nat \<Rightarrow> bool"

text \<open>
  The flag of the mask for a sample of the data: a missing baseline gives
  \<open>flag_missing\<close>; an axis of length one (and the polarization axis when the
  polarizations differ) is read at its only index. A waterfall has no baseline axis;
  its flags are read at the baseline number 0.
\<close>

definition mask_flag :: "uvdata_flags \<Rightarrow> uvflag \<Rightarrow> bool \<Rightarrow> int \<Rightarrow> nat \<Rightarrow> nat \<Rightarrow> nat \<Rightarrow> bool" where
  "mask_flag uvd uvf flag_missing b t f p =
     (if \<not> uvf_waterfall uvf \<and> b \<notin> set (uvf_baselines uvf) then flag_missing
      else uvf_flag_array uvf
             (if uvf_waterfall uvf then 0 else b)
             (if length (uvf_time_array uvf) = 1 then 0 else t)
             (if length (uvf_freq_array uvf) = 1 then 0 else f)
             (if uvf_polarization_array uvf \<noteq> uvd_polarization_array uvd then 0 else p))"

definition apply_uvflag ::
  "uvdata_flags \<Rightarrow> uvflag \<Rightarrow> bool \<Rightarrow> bool \<Rightarrow> bool \<Rightarrow> py_error + uvdata_flags" where
  "apply_uvflag uvd uvf unflag_first flag_missing force_pol =
     (if uvf_mode uvf \<noteq> FlagMode then Inl (ValueError ''UVFlag must be flag mode'')
      else if uvf_freq_array uvf \<noteq> uvd_freq_array uvd \<and> length (uvf_freq_array uvf) \<noteq> 1 then
        Inl (ValueError ''UVFlag and UVData have mismatched frequency arrays'')
      else if uvf_time_array uvf \<noteq> uvd_time_array uvd \<and> length (uvf_time_array uvf) \<noteq> 1 then
        Inl (ValueError ''UVFlag and UVData have mismatched time arrays'')
      else if uvf_polarization_array uvf \<noteq> uvd_polarization_array uvd \<and> \<not> force_pol then
        Inl (ValueError ''Input uvf and uvd polarizations do not match'')
      else Inr (uvd\<lparr>uvd_flag_array :=
             (\<lambda>b t f p.
                if b \<in> set (uvd_baselines uvd) \<and> t < length (uvd_time_array uvd) \<and>
                   f < length (uvd_freq_array uvd) \<and> p < length (uvd_polarization_array uvd)
                then (if unflag_first then False else uvd_flag_array uvd b t f p) \<or>
                     mask_flag uvd uvf flag_missing b t f p
                else uvd_flag_array uvd b t f p)\<rparr>))"

text \<open>Example inputs: a gain solution that is zero everywhere, and a one-sample array.\<close>

definition zero_gains :: "nat \<Rightarrow> unit \<Rightarrow> complex" where
  "zero_gains a k = 0"

definition one_sample :: "complex \<Rightarrow> unit sample list" where
  "one_sample v = [(0, 1, (), Some v)]"

text \<open>
  Example inputs: data with three frequencies, two times and the baseline 7, nothing
  flagged; a mask of the given mode and frequencies that flags the first time.
\<close>

definition example_uvd :: uvdata_flags where
  "example_uvd =
     \<lparr>uvd_freq_array = [1, 2, 3], uvd_time_array = [10, 20], uvd_polarization_array = [- 5],
      uvd_baselines = [7], uvd_flag_array = (\<lambda>b t f p. False)\<rparr>"

definition example_uvf :: "uvflag_mode \<Rightarrow> real list \<Rightarrow> uvflag" where
  "example_uvf mode freqs =
     \<lparr>uvf_mode = mode, uvf_waterfall = False, uvf_freq_array = freqs,
      uvf_time_array = [10, 20], uvf_polarization_array = [- 5], uvf_baselines = [7],
      uvf_flag_array = (\<lambda>b t f p. t = 0)\<rparr>"

section \<open>Properties of \<open>get_fhd_history\<close>\<close>

lemma tracked_main: "tracked main_loc ''##MAIN''"
  by (simp add: tracked_def scan_line_def Let_def)

lemma tracked_command: "tracked command_loc ''##COMMAND_LINE''"
  by (simp add: tracked_def scan_line_def Let_def)

lemma tracked_obs: "tracked obs_loc ''##OBS''"
  by (simp add: tracked_def scan_line_def Let_def)

lemma tracked_user: "tracked user_line ''User''"
  by (simp add: tracked_def scan_line_def Let_def)

lemma scan_all_none:
  assumes "tracked f p" "\<forall>j<length xs. \<not> startswith (xs ! j) p"
  shows "f (scan_all st ind xs) = f st"
  using assms(2)
proof (induction xs arbitrary: st ind)
  case Nil
  then show ?case by simp
next
  case (Cons x xs)
  from Cons.prems have x: "\<not> startswith x p" by auto
  from Cons.prems have "\<forall>j<length xs. \<not> startswith (xs ! j) p" by auto
  then have "f (scan_all (scan_line st ind x) (Suc ind) xs) = f (scan_line st ind x)"
    by (rule Cons.IH)
  with x assms(1) show ?case by (simp add: tracked_def)
qed

lemma scan_all_last:
  assumes "tracked f p"
  shows "i < length xs \<Longrightarrow> startswith (xs ! i) p \<Longrightarrow>
         \<forall>j. i < j \<and> j < length xs \<longrightarrow> \<not> startswith (xs ! j) p \<Longrightarrow>
         f (scan_all st ind xs) = Some (ind + i)"
proof (induction xs arbitrary: st ind i)
  case Nil
  then show ?case by simp
next
  case (Cons x xs)
  show ?case
  proof (cases i)
    case 0
    with Cons.prems have x: "startswith x p" by simp
    from Cons.prems 0 have "\<forall>j<length xs. \<not> startswith (xs ! j) p" by auto
    with assms have "f (scan_all (scan_line st ind x) (Suc ind) xs) = f (scan_line st ind x)"
      by (rule scan_all_none)
    with x assms 0 show ?thesis by (simp add: tracked_def)
  next
    case (Suc i')
    with Cons.prems have a: "i' < length xs" "startswith (xs ! i') p" by auto
    from Cons.prems Suc have b: "\<forall>j. i' < j \<and> j < length xs \<longrightarrow> \<not> startswith (xs ! j) p"
      by auto
    from Cons.IH [OF a b] Suc show ?thesis by simp
  qed
qed

lemma scan_all_is_none:
  assumes "tracked f p"
  shows "f (scan_all st ind xs) = None \<longleftrightarrow> f st = None \<and> (\<forall>j<length xs. \<not> startswith (xs ! j) p)"
proof (induction xs arbitrary: st ind)
  case Nil
  then show ?case by simp
next
  case (Cons x xs)
  have "(\<forall>j<length (x # xs). \<not> startswith ((x # xs) ! j) p) \<longleftrightarrow>
        \<not> startswith x p \<and> (\<forall>j<length xs. \<not> startswith (xs ! j) p)"
    by (auto simp: nth_Cons split: nat.splits) 
  with Cons.IH [of "scan_line st ind x" "Suc ind"] assms show ?case
    by (auto simp: tracked_def)
qed

lemma scan_lines_stop:
  "k < length xs \<Longrightarrow> all_located (scan_all st ind (take (Suc k) xs)) \<Longrightarrow>
   \<forall>j<k. \<not> all_located (scan_all st ind (take (Suc j) xs)) \<Longrightarrow>
   scan_lines st ind xs = scan_all st ind (take (Suc k) xs)"
proof (induction xs arbitrary: st ind k)
  case Nil
  then show ?case by simp
next
  case (Cons x xs)
  show ?case
  proof (cases k)
    case 0
    with Cons.prems show ?thesis by simp
  next
    case (Suc k')
    from Cons.prems(3) Suc have first: "\<not> all_located (scan_line st ind x)"
      by (auto dest: spec [of _ 0])
    from Cons.prems Suc have a: "k' < length xs"
      "all_located (scan_all (scan_line st ind x) (Suc ind) (take (Suc k') xs))" by auto
    have b: "\<forall>j<k'. \<not> all_located (scan_all (scan_line st ind x) (Suc ind) (take (Suc j) xs))"
    proof (intro allI impI)
      fix j assume "j < k'"
      then have "Suc j < k" using Suc by simp
      with Cons.prems(3) have "\<not> all_located (scan_all st ind (take (Suc (Suc j)) (x # xs)))"
        by blast
      then show "\<not> all_located (scan_all (scan_line st ind x) (Suc ind) (take (Suc j) xs))"
        by simp
    qed
    from Cons.IH [OF a b] first Suc show ?thesis by (simp add: Let_def)
  qed
qed

lemma seen_by_nth: "seen_by ls p j \<longleftrightarrow> (\<exists>i<length (take (Suc j) ls). startswith (take (Suc j) ls ! i) p)"
  unfolding seen_by_def by (metis in_set_conv_nth)

lemma scan_all_seen:
  assumes "tracked f p"
  shows "f (scan_all st ind (take (Suc j) ls)) = None \<longleftrightarrow> f st = None \<and> \<not> seen_by ls p j"
  unfolding scan_all_is_none [OF assms] seen_by_nth by blast

lemma slice_nth:
  assumes "j < length (slice xs a b)"
  shows "slice xs a b ! j = xs ! (a + j)"
proof -
  from assms have "j < b - a" "a \<le> length xs" by (auto simp: slice_def)
  then show ?thesis by (simp add: slice_def nth_drop)
qed

lemma length_slice: "length (slice xs a b) = min (b - a) (length xs - a)"
  by (simp add: slice_def)

lemma last_marker_scan:
  assumes t: "tracked f p" and lm: "last_marker ls p k i" and k: "k < length ls"
  shows "f (scan_all st 0 (take (Suc k) ls)) = Some i"
proof -
  let ?xs = "take (Suc k) ls"
  from lm k have a: "i < length ?xs" by (simp add: last_marker_def)
  from lm k have b: "startswith (?xs ! i) p" by (simp add: last_marker_def)
  have c: "\<forall>j. i < j \<and> j < length ?xs \<longrightarrow> \<not> startswith (?xs ! j) p"
  proof (intro allI impI)
    fix j assume j: "i < j \<and> j < length ?xs"
    then have jk: "j \<le> k" "j < length ls" by auto
    from j jk have "j - Suc i < length (slice ls (Suc i) (Suc k))"
      by (auto simp: length_slice)
    moreover from this j have "slice ls (Suc i) (Suc k) ! (j - Suc i) = ls ! j"
      by (simp add: slice_nth)
    ultimately have "ls ! j \<in> set (slice ls (Suc i) (Suc k))"
      by (metis nth_mem)
    with lm have "\<not> startswith (ls ! j) p" by (simp add: last_marker_def)
    with jk show "\<not> startswith (?xs ! j) p" by simp
  qed
  from scan_all_last [OF t a b c, of st 0] show ?thesis by simp
qed

lemma scan_lines_located:
  assumes "stop_line ls k"
    and "last_marker ls ''##MAIN'' k m"
    and "last_marker ls ''##COMMAND_LINE'' k c"
    and "last_marker ls ''##OBS'' k ob"
    and "last_marker ls ''User'' k u"
  shows "scan_lines no_locs 0 ls =
         \<lparr>main_loc = Some m, command_loc = Some c, obs_loc = Some ob, user_line = Some u\<rparr>"
proof -
  let ?fin = "scan_all no_locs 0 (take (Suc k) ls)"
  from assms(1) have k: "k < length ls" by (simp add: stop_line_def)
  have f: "main_loc ?fin = Some m" "command_loc ?fin = Some c" "obs_loc ?fin = Some ob"
    "user_line ?fin = Some u"
    using last_marker_scan [OF tracked_main assms(2) k]
      last_marker_scan [OF tracked_command assms(3) k]
      last_marker_scan [OF tracked_obs assms(4) k]
      last_marker_scan [OF tracked_user assms(5) k]
    by simp_all
  then have loc: "all_located ?fin" by (simp add: all_located_def)
  have before: "\<forall>j<k. \<not> all_located (scan_all no_locs 0 (take (Suc j) ls))"
  proof (intro allI impI)
    fix j assume "j < k"
    with assms(1) have "\<not> all_seen_by ls j" by (simp add: stop_line_def)
    then show "\<not> all_located (scan_all no_locs 0 (take (Suc j) ls))"
      by (auto simp: all_seen_by_def all_located_def no_locs_def
          scan_all_seen [OF tracked_main] scan_all_seen [OF tracked_command]
          scan_all_seen [OF tracked_obs] scan_all_seen [OF tracked_user])
  qed
  from scan_lines_stop [OF k loc before] have "scan_lines no_locs 0 ls = ?fin" .
  with f show ?thesis by simp
qed

lemma slice_between:
  assumes "b \<le> length ls"
  shows "slice ls (Suc a) b = between ls a b"
proof (rule nth_equalityI)
  from assms show len: "length (slice ls (Suc a) b) = length (between ls a b)"
    by (simp add: length_slice between_def)
  fix i assume i: "i < length (slice ls (Suc a) b)"
  with len have "Suc a + i < b" by (simp add: between_def)
  with i show "slice ls (Suc a) b ! i = between ls a b ! i"
    by (simp add: slice_nth between_def)
qed

lemma rstrip_replace_tab: "rstrip (replace_tab s) = replace_tab (rstrip s)"
proof -
  let ?g = "\<lambda>c. if c = CHR 0x09 then CHR '' '' else c"
  have sp: "is_space \<circ> ?g = is_space"
    by (rule ext) (simp add: is_space_def)
  show ?thesis
    by (simp add: rstrip_def replace_tab_def rev_map dropWhile_map sp)
qed

lemma clean_header: "clean_line ''FHD history\<newline>'' = ''FHD history''"
  by (simp add: clean_line_def rstrip_def replace_tab_def is_space_def)

lemma scan_lines_sound:
  assumes "tracked f p"
  shows "f (scan_lines st ind ls) = Some i \<Longrightarrow>
         f st = Some i \<or> (ind \<le> i \<and> i < ind + length ls \<and> startswith (ls ! (i - ind)) p)"
proof (induction ls arbitrary: st ind)
  case Nil
  then show ?case by simp
next
  case (Cons x xs)
  let ?st = "scan_line st ind x"
  have step: "f ?st = (if startswith x p then Some ind else f st)"
    using assms by (simp add: tracked_def)
  show ?case
  proof (cases "all_located ?st")
    case True
    with Cons.prems have "f ?st = Some i" by simp
    with step show ?thesis by (auto split: if_splits)
  next
    case False
    with Cons.prems have "f (scan_lines ?st (Suc ind) xs) = Some i" by simp
    from Cons.IH [OF this] step show ?thesis
      by (auto split: if_splits simp: Suc_diff_le)
  qed
qed

lemma scan_lines_keeps:
  assumes "tracked f p"
  shows "f st \<noteq> None \<Longrightarrow> f (scan_lines st ind ls) \<noteq> None"
proof (induction ls arbitrary: st ind)
  case Nil
  then show ?case by simp
next
  case (Cons x xs)
  from assms Cons.prems have "f (scan_line st ind x) \<noteq> None" by (simp add: tracked_def)
  with Cons.IH [of "scan_line st ind x" "Suc ind"] show ?case by (simp add: Let_def)
qed

lemma scan_lines_unseen:
  assumes "tracked f p"
  shows "\<forall>l \<in> set ls. \<not> startswith l p \<Longrightarrow> f (scan_lines st ind ls) = f st"
proof (induction ls arbitrary: st ind)
  case Nil
  then show ?case by simp
next
  case (Cons x xs)
  from assms Cons.prems have "f (scan_line st ind x) = f st" by (simp add: tracked_def)
  with Cons.IH [of "scan_line st ind x" "Suc ind"] Cons.prems show ?case by (simp add: Let_def)
qed

lemma tracked_step:
  assumes "tracked f p" "f st \<noteq> None \<or> (\<exists>l \<in> set (x # xs). startswith l p)"
  shows "f (scan_line st ind x) \<noteq> None \<or> (\<exists>l \<in> set xs. startswith l p)"
  using assms by (auto simp: tracked_def)

lemma scan_lines_all_located:
  "main_loc st \<noteq> None \<or> (\<exists>l \<in> set ls. startswith l ''##MAIN'') \<Longrightarrow>
   command_loc st \<noteq> None \<or> (\<exists>l \<in> set ls. startswith l ''##COMMAND_LINE'') \<Longrightarrow>
   obs_loc st \<noteq> None \<or> (\<exists>l \<in> set ls. startswith l ''##OBS'') \<Longrightarrow>
   user_line st \<noteq> None \<or> (\<exists>l \<in> set ls. startswith l ''User'') \<Longrightarrow>
   all_located (scan_lines st ind ls)"
proof (induction ls arbitrary: st ind)
  case Nil
  then show ?case by (simp add: all_located_def)
next
  case (Cons x xs)
  let ?st = "scan_line st ind x"
  show ?case
  proof (cases "all_located ?st")
    case True
    then show ?thesis by simp
  next
    case False
    have "all_located (scan_lines ?st (Suc ind) xs)"
      by (rule Cons.IH)
        (rule tracked_step [OF tracked_main Cons.prems(1)]
          tracked_step [OF tracked_command Cons.prems(2)]
          tracked_step [OF tracked_obs Cons.prems(3)]
          tracked_step [OF tracked_user Cons.prems(4)])+
    with False show ?thesis by simp
  qed
qed

lemma last_marker_exists:
  "k < length ls \<Longrightarrow> seen_by ls p k \<Longrightarrow> \<exists>i. last_marker ls p k i"
proof (induction k)
  case 0
  then have "startswith (ls ! 0) p"
    by (cases ls) (auto simp: seen_by_def)
  with 0 show ?case by (auto simp: last_marker_def slice_def)
next
  case (Suc k)
  show ?case
  proof (cases "startswith (ls ! Suc k) p")
    case True
    with Suc.prems have "last_marker ls p (Suc k) (Suc k)"
      by (simp add: last_marker_def slice_def)
    then show ?thesis ..
  next
    case False
    from Suc.prems(1) have tk: "take (Suc (Suc k)) ls = take (Suc k) ls @ [ls ! Suc k]"
      by (simp add: take_Suc_conv_app_nth)
    with Suc.prems(2) False have "seen_by ls p k" by (auto simp: seen_by_def)
    with Suc.IH Suc.prems(1) obtain i where i: "last_marker ls p k i" by auto
    then have ik: "i \<le> k" by (simp add: last_marker_def)
    have "slice ls (Suc i) (Suc (Suc k)) = slice ls (Suc i) (Suc k) @ [ls ! Suc k]"
      using ik Suc.prems(1)
      by (simp add: slice_def Suc_diff_le take_Suc_conv_app_nth)
    with i False have "last_marker ls p (Suc k) i"
      by (auto simp: last_marker_def)
    then show ?thesis ..
  qed
qed

lemma seen_by_all: "length ls \<le> Suc n \<Longrightarrow> seen_by ls p n \<longleftrightarrow> (\<exists>l \<in> set ls. startswith l p)"
  by (simp add: seen_by_def)

lemma stop_line_exists:
  assumes "\<exists>l \<in> set ls. startswith l ''##MAIN''"
    and "\<exists>l \<in> set ls. startswith l ''##COMMAND_LINE''"
    and "\<exists>l \<in> set ls. startswith l ''##OBS''"
    and "\<exists>l \<in> set ls. startswith l ''User''"
  shows "\<exists>k. stop_line ls k"
proof -
  from assms(1) have ne: "ls \<noteq> []" by auto
  have "length ls \<le> Suc (length ls - 1)" by simp
  with assms have ex: "all_seen_by ls (length ls - 1)"
    unfolding all_seen_by_def by (simp only: seen_by_all)
  define k where "k = (LEAST j. all_seen_by ls j)"
  from ex have a: "all_seen_by ls k" unfolding k_def by (rule LeastI)
  have b: "\<forall>j<k. \<not> all_seen_by ls j" unfolding k_def by (auto dest: not_less_Least)
  from ex have "k \<le> length ls - 1" unfolding k_def by (rule Least_le)
  with ne have "k < length ls" by (cases ls) auto
  with a b show ?thesis by (auto simp: stop_line_def)
qed

lemma get_fhd_history_located:
  assumes "stop_line ls k"
    and "last_marker ls ''##MAIN'' k m"
    and "last_marker ls ''##COMMAND_LINE'' k c"
    and "last_marker ls ''##OBS'' k ob"
    and "last_marker ls ''User'' k u"
  shows "get_fhd_history ls return_user =
         (if length (split_ws (ls ! u)) < 2 then Inl IndexError
          else if return_user
          then Inr (HistoryUser (history_text ls m c ob) (split_ws (ls ! u) ! 1))
          else Inr (History (history_text ls m c ob)))"
proof -
  from assms(3,4,5) have len: "c \<le> length ls" "ob \<le> length ls" "u < length ls"
    by (simp_all add: last_marker_def)
  have cl: "clean_line = (\<lambda>l. rstrip (replace_tab l))"
    by (rule ext) (simp add: clean_line_def rstrip_replace_tab)
  have hdr: "rstrip (replace_tab ''FHD history\<newline>'') = ''FHD history''"
    using clean_header by (simp add: cl)
  show ?thesis
    unfolding get_fhd_history_def scan_lines_located [OF assms] history_text_def
    using len by (simp add: Let_def slice_between cl hdr)
qed

lemma last_marker_unique:
  assumes "last_marker ls p k i" "last_marker ls p k i'"
  shows "i = i'"
proof -
  have one: "\<not> a < b" if a: "last_marker ls p k a" and b: "last_marker ls p k b" for a b
  proof
    assume ab: "a < b"
    from b have bk: "b \<le> k" "b < length ls" "startswith (ls ! b) p"
      by (simp_all add: last_marker_def)
    with ab have "b - Suc a < length (slice ls (Suc a) (Suc k))"
      by (auto simp: length_slice)
    moreover from this ab have "slice ls (Suc a) (Suc k) ! (b - Suc a) = ls ! b"
      by (simp add: slice_nth)
    ultimately have "ls ! b \<in> set (slice ls (Suc a) (Suc k))"
      by (metis nth_mem)
    with a bk show False by (simp add: last_marker_def)
  qed
  from one [OF assms] one [OF assms(2,1)] show ?thesis by simp
qed

lemma stop_line_unique: "stop_line ls k \<Longrightarrow> stop_line ls k' \<Longrightarrow> k = k'"
  unfolding stop_line_def by (meson nat_neq_iff)

text \<open>
  Every list of lines that has the four markers has exactly one stop line and one last
  line for each marker up to it.
\<close>

lemma markers_located:
  assumes "\<exists>l \<in> set ls. startswith l ''##MAIN''"
    and "\<exists>l \<in> set ls. startswith l ''##COMMAND_LINE''"
    and "\<exists>l \<in> set ls. startswith l ''##OBS''"
    and "\<exists>l \<in> set ls. startswith l ''User''"
  shows "\<exists>k m c ob u. stop_line ls k \<and> last_marker ls ''##MAIN'' k m \<and>
           last_marker ls ''##COMMAND_LINE'' k c \<and> last_marker ls ''##OBS'' k ob \<and>
           last_marker ls ''User'' k u"
proof -
  from stop_line_exists [OF assms] obtain k where k: "stop_line ls k" ..
  then have kl: "k < length ls" and seen: "all_seen_by ls k" by (simp_all add: stop_line_def)
  from seen have s: "seen_by ls ''##MAIN'' k" "seen_by ls ''##COMMAND_LINE'' k"
    "seen_by ls ''##OBS'' k" "seen_by ls ''User'' k"
    by (simp_all add: all_seen_by_def)
  from last_marker_exists [OF kl s(1)] obtain m where m: "last_marker ls ''##MAIN'' k m" ..
  from last_marker_exists [OF kl s(2)] obtain c where c: "last_marker ls ''##COMMAND_LINE'' k c" ..
  from last_marker_exists [OF kl s(3)] obtain ob where ob: "last_marker ls ''##OBS'' k ob" ..
  from last_marker_exists [OF kl s(4)] obtain u where u: "last_marker ls ''User'' k u" ..
  from k m c ob u show ?thesis by blast
qed

text \<open>
  C8, as amended. Let line \<open>k\<close> be the first line by which all four markers have been
  read and \<open>m\<close>, \<open>c\<close>, \<open>ob\<close>, \<open>u\<close> the last lines up to \<open>k\<close> that begin with \<open>##MAIN\<close>,
  \<open>##COMMAND_LINE\<close>, \<open>##OBS\<close> and \<open>User\<close> (for a file with one line per marker: those
  lines). If the \<open>User\<close> line has at least two whitespace-delimited tokens, then
  \<open>get_fhd_history\<close> returns the \<open>FHD history\<close> line followed by exactly the lines between
  \<open>m\<close> and \<open>c\<close> and between \<open>c\<close> and \<open>ob\<close>, tabs replaced by spaces and trailing
  whitespace stripped, and with \<open>return_user\<close> also the second token of the \<open>User\<close> line.
\<close>

theorem get_fhd_history_returns_history:
  assumes "stop_line ls k"
    and "last_marker ls ''##MAIN'' k m"
    and "last_marker ls ''##COMMAND_LINE'' k c"
    and "last_marker ls ''##OBS'' k ob"
    and "last_marker ls ''User'' k u"
    and "2 \<le> length (split_ws (ls ! u))"
  shows "get_fhd_history ls False = Inr (History (history_text ls m c ob)) \<and>
         get_fhd_history ls True =
           Inr (HistoryUser (history_text ls m c ob) (split_ws (ls ! u) ! 1))"
  using assms(6) by (simp add: get_fhd_history_located [OF assms(1-5)])

theorem get_fhd_history_returns_history_witness:
  "stop_line [''##MAIN\<newline>'', [CHR ''a'', CHR 0x09, CHR ''b'', CHR '' '', CHR 0x0A],
              ''##COMMAND_LINE\<newline>'', ''cmd\<newline>'', ''##OBS\<newline>'', ''User bob\<newline>''] 5 \<and>
   get_fhd_history [''##MAIN\<newline>'', [CHR ''a'', CHR 0x09, CHR ''b'', CHR '' '', CHR 0x0A],
              ''##COMMAND_LINE\<newline>'', ''cmd\<newline>'', ''##OBS\<newline>'', ''User bob\<newline>''] False =
     Inr (History ''FHD history\<newline>a b\<newline>cmd'') \<and>
   get_fhd_history [''##MAIN\<newline>'', [CHR ''a'', CHR 0x09, CHR ''b'', CHR '' '', CHR 0x0A],
              ''##COMMAND_LINE\<newline>'', ''cmd\<newline>'', ''##OBS\<newline>'', ''User bob\<newline>''] True =
     Inr (HistoryUser ''FHD history\<newline>a b\<newline>cmd'' ''bob'')"
proof -
  let ?ls = "[''##MAIN\<newline>'', [CHR ''a'', CHR 0x09, CHR ''b'', CHR '' '', CHR 0x0A],
              ''##COMMAND_LINE\<newline>'', ''cmd\<newline>'', ''##OBS\<newline>'', ''User bob\<newline>'']"
  have k: "stop_line ?ls 5"
    by (simp add: stop_line_def all_seen_by_def seen_by_def startswith_def less_Suc_eq
        numeral_eq_Suc)
  have m: "last_marker ?ls ''##MAIN'' 5 0"
    and c: "last_marker ?ls ''##COMMAND_LINE'' 5 2"
    and ob: "last_marker ?ls ''##OBS'' 5 4"
    and u: "last_marker ?ls ''User'' 5 5"
    by (simp_all add: last_marker_def slice_def startswith_def)
  have t: "2 \<le> length (split_ws (?ls ! 5))"
    by (simp add: split_ws_def is_space_def)
  have h: "history_text ?ls 0 2 4 = ''FHD history\<newline>a b\<newline>cmd''"
    by code_simp
  have tok: "split_ws (?ls ! 5) ! 1 = ''bob''"
    by (simp add: split_ws_def is_space_def)
  from get_fhd_history_returns_history [OF k m c ob u t] k show ?thesis
    unfolding h tok by simp
qed

text \<open>
  C8 as stated fails: a file with the four markers whose \<open>User\<close> line has one token
  makes \<open>get_fhd_history\<close> raise \<open>IndexError\<close>.
\<close>

theorem get_fhd_history_counterexample:
  "(\<exists>l \<in> set [''##MAIN\<newline>'', ''##COMMAND_LINE\<newline>'', ''##OBS\<newline>'', ''User\<newline>''].
      startswith l ''##MAIN'') \<and>
   (\<exists>l \<in> set [''##MAIN\<newline>'', ''##COMMAND_LINE\<newline>'', ''##OBS\<newline>'', ''User\<newline>''].
      startswith l ''##COMMAND_LINE'') \<and>
   (\<exists>l \<in> set [''##MAIN\<newline>'', ''##COMMAND_LINE\<newline>'', ''##OBS\<newline>'', ''User\<newline>''].
      startswith l ''##OBS'') \<and>
   (\<exists>l \<in> set [''##MAIN\<newline>'', ''##COMMAND_LINE\<newline>'', ''##OBS\<newline>'', ''User\<newline>''].
      startswith l ''User'') \<and>
   get_fhd_history [''##MAIN\<newline>'', ''##COMMAND_LINE\<newline>'', ''##OBS\<newline>'', ''User\<newline>''] False =
     Inl IndexError"
  by (simp add: get_fhd_history_def scan_line_def all_located_def no_locs_def startswith_def
      split_ws_def is_space_def Let_def)

text \<open>
  C10. The user token is extracted whatever \<open>return_user\<close> is: for a file with the three
  \<open>##\<close> markers, \<open>get_fhd_history\<close> raises \<open>TypeError\<close> when no line begins with \<open>User\<close>, and
  \<open>IndexError\<close> when there are such lines and each has fewer than two tokens; it does not
  return the history.
\<close>

theorem get_fhd_history_user_unconditional:
  assumes "\<exists>l \<in> set ls. startswith l ''##MAIN''"
    and "\<exists>l \<in> set ls. startswith l ''##COMMAND_LINE''"
    and "\<exists>l \<in> set ls. startswith l ''##OBS''"
  shows "((\<forall>l \<in> set ls. \<not> startswith l ''User'') \<longrightarrow>
            get_fhd_history ls return_user = Inl TypeError) \<and>
         ((\<exists>l \<in> set ls. startswith l ''User'') \<and>
          (\<forall>l \<in> set ls. startswith l ''User'' \<longrightarrow> length (split_ws l) < 2) \<longrightarrow>
            get_fhd_history ls return_user = Inl IndexError)"
proof (intro conjI impI)
  assume "\<forall>l \<in> set ls. \<not> startswith l ''User''"
  then have "user_line (scan_lines no_locs 0 ls) = None"
    by (simp add: scan_lines_unseen [OF tracked_user] no_locs_def)
  then show "get_fhd_history ls return_user = Inl TypeError"
    by (simp add: get_fhd_history_def Let_def split: option.splits)
next
  assume a: "(\<exists>l \<in> set ls. startswith l ''User'') \<and>
             (\<forall>l \<in> set ls. startswith l ''User'' \<longrightarrow> length (split_ws l) < 2)"
  then have ex: "\<exists>l \<in> set ls. startswith l ''User''" ..
  from markers_located [OF assms ex] obtain k m c ob u where
    loc: "stop_line ls k" "last_marker ls ''##MAIN'' k m" "last_marker ls ''##COMMAND_LINE'' k c"
      "last_marker ls ''##OBS'' k ob" "last_marker ls ''User'' k u"
    by blast
  from loc(5) have "ls ! u \<in> set ls" "startswith (ls ! u) ''User''"
    by (simp_all add: last_marker_def)
  with a have "length (split_ws (ls ! u)) < 2" by blast
  then show "get_fhd_history ls return_user = Inl IndexError"
    by (simp add: get_fhd_history_located [OF loc])
qed

theorem get_fhd_history_user_unconditional_witness:
  "get_fhd_history [''##MAIN\<newline>'', ''run\<newline>'', ''##COMMAND_LINE\<newline>'', ''##OBS\<newline>''] False =
     Inl TypeError \<and>
   get_fhd_history [''##MAIN\<newline>'', ''##COMMAND_LINE\<newline>'', ''##OBS\<newline>'', ''User \<newline>''] False =
     Inl IndexError"
proof -
  let ?a = "[''##MAIN\<newline>'', ''run\<newline>'', ''##COMMAND_LINE\<newline>'', ''##OBS\<newline>'']"
  let ?b = "[''##MAIN\<newline>'', ''##COMMAND_LINE\<newline>'', ''##OBS\<newline>'', ''User \<newline>'']"
  have a: "\<exists>l \<in> set ?a. startswith l ''##MAIN''" "\<exists>l \<in> set ?a. startswith l ''##COMMAND_LINE''"
    "\<exists>l \<in> set ?a. startswith l ''##OBS''" "\<forall>l \<in> set ?a. \<not> startswith l ''User''"
    by (simp_all add: startswith_def)
  have b: "\<exists>l \<in> set ?b. startswith l ''##MAIN''" "\<exists>l \<in> set ?b. startswith l ''##COMMAND_LINE''"
    "\<exists>l \<in> set ?b. startswith l ''##OBS''"
    "(\<exists>l \<in> set ?b. startswith l ''User'') \<and>
     (\<forall>l \<in> set ?b. startswith l ''User'' \<longrightarrow> length (split_ws l) < 2)"
    by (simp_all add: startswith_def split_ws_def is_space_def)
  from get_fhd_history_user_unconditional [OF a(1-3), of False] a(4)
    get_fhd_history_user_unconditional [OF b(1-3), of False] b(4)
  show ?thesis by blast
qed

section \<open>Properties of the file list of \<open>read_fhd\<close>\<close>

lemma file_role_chain:
  "file_role dn f =
     (if endswith (lower f) (dn @ ''xx.sav'') then Some DataXX
      else if endswith (lower f) (dn @ ''yy.sav'') then Some DataYY
      else if endswith (lower f) (dn @ ''xy.sav'') then Some DataXY
      else if endswith (lower f) (dn @ ''yx.sav'') then Some DataYX
      else if endswith (lower f) ''_params.sav'' then Some Params
      else if endswith (lower f) ''_obs.sav'' then Some Obs
      else if endswith (lower f) ''_flags.sav'' then Some Flags
      else if endswith (lower f) ''_layout.sav'' then Some Layout
      else if endswith (lower f) ''_settings.txt'' then Some Settings
      else None)"
  by (simp add: file_role_def all_roles_def)

lemma add_file_by_role:
  "add_file dn st f = (case file_role dn f of None \<Rightarrow> Inr st | Some r \<Rightarrow> add_role r st f)"
  by (simp add: add_file_def file_role_chain)

lemma add_role_taken:
  "taken st r \<Longrightarrow> add_role r st f = Inl (ValueError (dup_message r))"
  by (cases r) (simp_all add: add_datafile_def dup_message_def)

lemma add_role_free:
  assumes "\<not> taken st r"
  shows "\<exists>st'. add_role r st f = Inr st'"
  using assms by (cases r) (simp_all add: add_datafile_def)

lemma add_role_taken_after:
  assumes "add_role r st f = Inr st'"
  shows "taken st' r' \<longleftrightarrow> taken st r' \<or> r' = r"
proof (cases r)
  case DataXX with assms show ?thesis
    by (cases r') (auto simp: add_datafile_def split: if_splits)
next
  case DataYY with assms show ?thesis
    by (cases r') (auto simp: add_datafile_def split: if_splits)
next
  case DataXY with assms show ?thesis
    by (cases r') (auto simp: add_datafile_def split: if_splits)
next
  case DataYX with assms show ?thesis
    by (cases r') (auto simp: add_datafile_def split: if_splits)
next
  case Params with assms show ?thesis
    by (cases r') (auto split: if_splits)
next
  case Obs with assms show ?thesis
    by (cases r') (auto split: if_splits)
next
  case Flags with assms show ?thesis
    by (cases r') (auto split: if_splits)
next
  case Layout with assms show ?thesis
    by (cases r') (auto split: if_splits)
next
  case Settings with assms show ?thesis
    by (cases r') (auto split: if_splits)
qed

lemma add_role_known_keys:
  assumes "add_role r st f = Inr st'" "known_keys st"
  shows "known_keys st'"
  using assms by (cases r) (auto simp: add_datafile_def known_keys_def split: if_splits)


lemma role_count_Cons:
  "role_count dn (f # fs) r = (if file_role dn f = Some r then 1 else 0) + role_count dn fs r"
  by (simp add: role_count_def)

lemma has_role_count: "has_role dn fs r \<longleftrightarrow> 1 \<le> role_count dn fs r"
  by (induction fs) (auto simp: has_role_def role_count_def)

lemma has_role_Cons: "has_role dn (f # fs) r \<longleftrightarrow> file_role dn f = Some r \<or> has_role dn fs r"
  by (auto simp: has_role_def)

lemma add_files_clean:
  "known_keys st \<Longrightarrow> \<forall>r. \<not> clash dn st fs r \<Longrightarrow>
   \<exists>st'. add_files dn st fs = Inr st' \<and> known_keys st' \<and>
         (\<forall>r. taken st' r \<longleftrightarrow> taken st r \<or> has_role dn fs r)"
proof (induction fs arbitrary: st)
  case Nil
  then show ?case by (simp add: has_role_def)
next
  case (Cons f fs)
  show ?case
  proof (cases "file_role dn f")
    case None
    from Cons.prems(2) None have "\<forall>r. \<not> clash dn st fs r"
      by (simp add: clash_def has_role_Cons role_count_Cons)
    from Cons.IH [OF Cons.prems(1) this] None show ?thesis
      by (simp add: add_file_by_role has_role_Cons)
  next
    case (Some r0)
    from Cons.prems(2) Some have free: "\<not> taken st r0"
      by (auto simp: clash_def has_role_Cons)
    then obtain st1 where st1: "add_role r0 st f = Inr st1"
      using add_role_free by blast
    have k1: "known_keys st1" using st1 Cons.prems(1) by (rule add_role_known_keys)
    have t1: "taken st1 r \<longleftrightarrow> taken st r \<or> r = r0" for r
      using st1 by (rule add_role_taken_after)
    have "\<not> clash dn st1 fs r" for r
    proof
      assume c: "clash dn st1 fs r"
      have "clash dn st (f # fs) r"
      proof (cases "r = r0")
        case True
        with c have "has_role dn fs r0" by (auto simp: clash_def has_role_count)
        with True Some show ?thesis by (simp add: clash_def role_count_Cons has_role_count)
      next
        case False
        with c t1 Some show ?thesis
          by (auto simp: clash_def role_count_Cons has_role_Cons)
      qed
      with Cons.prems(2) show False by blast
    qed
    then have "\<forall>r. \<not> clash dn st1 fs r" by blast
    from Cons.IH [OF k1 this] obtain st' where
      st': "add_files dn st1 fs = Inr st'" "known_keys st'"
        "\<forall>r. taken st' r \<longleftrightarrow> taken st1 r \<or> has_role dn fs r"
      by blast
    have "\<forall>r. taken st' r \<longleftrightarrow> taken st r \<or> has_role dn (f # fs) r"
      using st'(3) t1 Some by (auto simp: has_role_Cons)
    with st' st1 Some show ?thesis by (simp add: add_file_by_role)
  qed
qed

lemma add_files_clash:
  "clash dn st fs r \<Longrightarrow>
   \<exists>r'. clash dn st fs r' \<and> add_files dn st fs = Inl (ValueError (dup_message r'))"
proof (induction fs arbitrary: st r)
  case Nil
  then show ?case by (simp add: clash_def has_role_def role_count_def)
next
  case (Cons f fs)
  show ?case
  proof (cases "file_role dn f")
    case None
    from Cons.prems None have "clash dn st fs r"
      by (simp add: clash_def has_role_Cons role_count_Cons)
    from Cons.IH [OF this] None show ?thesis
      by (simp add: add_file_by_role clash_def has_role_Cons role_count_Cons)
  next
    case (Some r0)
    show ?thesis
    proof (cases "taken st r0")
      case True
      with Some have "clash dn st (f # fs) r0" by (simp add: clash_def has_role_Cons)
      moreover from True Some have "add_files dn st (f # fs) = Inl (ValueError (dup_message r0))"
        by (simp add: add_file_by_role add_role_taken)
      ultimately show ?thesis by blast
    next
      case False
      then obtain st1 where st1: "add_role r0 st f = Inr st1"
        using add_role_free by blast
      have t1: "taken st1 r \<longleftrightarrow> taken st r \<or> r = r0" for r
        using st1 by (rule add_role_taken_after)
      have "clash dn st1 fs r"
        using Cons.prems Some t1 [of r] False
        by (auto simp: clash_def role_count_Cons has_role_Cons has_role_count split: if_splits)
      from Cons.IH [OF this] obtain r' where
        r': "clash dn st1 fs r'" "add_files dn st1 fs = Inl (ValueError (dup_message r'))"
        by blast
      have "clash dn st (f # fs) r'"
        using r'(1) Some t1 [of r'] False
        by (auto simp: clash_def role_count_Cons has_role_Cons has_role_count split: if_splits)
      with r'(2) st1 Some show ?thesis by (auto simp: add_file_by_role)
    qed
  qed
qed


lemma add_files_ignores:
  "add_files dn st (filter (\<lambda>f. file_role dn f \<noteq> None) fs) = add_files dn st fs"
proof (induction fs arbitrary: st)
  case Nil
  then show ?case by simp
next
  case (Cons f fs)
  then show ?case
    by (cases "file_role dn f") (auto simp: add_file_by_role split: sum.splits)
qed

text \<open>
  A file name ends with the suffix of at most one role, so the order of the chain does
  not matter: the last six characters of the nine suffixes differ.
\<close>

lemma endswith_last6:
  assumes "endswith s p" "6 \<le> length p"
  shows "drop (length s - 6) s = drop (length p - 6) p"
proof -
  from assms(1) have len: "length p \<le> length s" and p: "p = drop (length s - length p) s"
    by (simp_all add: endswith_def)
  have "drop (length p - 6) p = drop (length p - 6) (drop (length s - length p) s)"
    using p by simp
  also have "\<dots> = drop (length s - 6) s"
    using len assms(2) by simp
  finally show ?thesis by simp
qed

lemma role_suffix_long: "6 \<le> length (role_suffix (data_name um) r)"
  by (cases r) (simp_all add: data_name_def)

lemma role_suffix_last6_inj:
  assumes "drop (length (role_suffix (data_name um) r) - 6) (role_suffix (data_name um) r) =
           drop (length (role_suffix (data_name um) r') - 6) (role_suffix (data_name um) r')"
  shows "r = r'"
  using assms by (cases um; cases r; cases r') (simp_all add: data_name_def)

lemma role_suffix_exclusive:
  assumes "endswith s (role_suffix (data_name um) r)" "endswith s (role_suffix (data_name um) r')"
  shows "r = r'"
  using endswith_last6 [OF assms(1) role_suffix_long] endswith_last6 [OF assms(2) role_suffix_long]
  by (intro role_suffix_last6_inj [of um]) simp

lemma file_role_iff:
  "file_role (data_name um) f = Some r \<longleftrightarrow> endswith (lower f) (role_suffix (data_name um) r)"
proof
  assume "file_role (data_name um) f = Some r"
  then show "endswith (lower f) (role_suffix (data_name um) r)"
    unfolding file_role_def by (auto simp: find_Some_iff)
next
  assume e: "endswith (lower f) (role_suffix (data_name um) r)"
  have "r \<in> set all_roles" by (cases r) (simp_all add: all_roles_def)
  with e have "file_role (data_name um) f \<noteq> None"
    unfolding file_role_def by (auto simp: find_None_iff)
  then obtain r' where r': "file_role (data_name um) f = Some r'" by blast
  then have "endswith (lower f) (role_suffix (data_name um) r')"
    unfolding file_role_def by (auto simp: find_Some_iff)
  with e have "r = r'" by (rule role_suffix_exclusive)
  with r' show "file_role (data_name um) f = Some r" by simp
qed

lemma taken_no_files: "\<not> taken no_files r"
  by (cases r) (simp_all add: no_files_def)

lemma datafiles_empty_iff:
  assumes "known_keys st"
  shows "length (datafiles st) < 1 \<longleftrightarrow> (\<forall>r \<in> data_roles. \<not> taken st r)"
proof
  assume "length (datafiles st) < 1"
  then show "\<forall>r \<in> data_roles. \<not> taken st r" by (auto simp: data_roles_def)
next
  assume a: "\<forall>r \<in> data_roles. \<not> taken st r"
  show "length (datafiles st) < 1"
  proof (cases "datafiles st")
    case Nil
    then show ?thesis by simp
  next
    case (Cons kv rest)
    then have "fst kv \<in> set (map fst (datafiles st))" by simp
    with assms have "fst kv \<in> {''xx'', ''yy'', ''xy'', ''yx''}" unfolding known_keys_def by blast
    with a Cons show ?thesis by (auto simp: data_roles_def)
  qed
qed

lemma read_fhd_filelist_dup:
  assumes "2 \<le> role_count (data_name um) fl r"
  shows "\<exists>r'. 2 \<le> role_count (data_name um) fl r' \<and>
           read_fhd_filelist fl um rd = Inl (ValueError (dup_message r'))"
proof -
  from assms have "clash (data_name um) no_files fl r" by (simp add: clash_def)
  from add_files_clash [OF this] obtain r' where
    "clash (data_name um) no_files fl r'"
    "add_files (data_name um) no_files fl = Inl (ValueError (dup_message r'))" by blast
  then show ?thesis by (auto simp: clash_def taken_no_files read_fhd_filelist_def)
qed

lemma read_fhd_filelist_nodup:
  assumes "\<forall>r. \<not> 2 \<le> role_count (data_name um) fl r"
  shows "\<exists>st. add_files (data_name um) no_files fl = Inr st \<and> known_keys st \<and>
           (\<forall>r. taken st r \<longleftrightarrow> has_role (data_name um) fl r) \<and>
           read_fhd_filelist fl um rd =
             (case check_required st rd of Inl e \<Rightarrow> Inl e | Inr ws \<Rightarrow> Inr (st, ws))"
proof -
  have k: "known_keys no_files" by (simp add: known_keys_def no_files_def)
  from assms have "\<forall>r. \<not> clash (data_name um) no_files fl r"
    by (simp add: clash_def taken_no_files)
  from add_files_clean [OF k this] show ?thesis
    by (auto simp: taken_no_files read_fhd_filelist_def)
qed

lemma check_required_error:
  assumes "known_keys st"
  shows "(\<exists>e. check_required st rd = Inl e) \<longleftrightarrow>
         (rd \<and> (\<forall>r \<in> data_roles. \<not> taken st r)) \<or> (\<not> rd \<and> \<not> taken st Obs) \<or>
         \<not> taken st Params \<or> \<not> taken st Flags"
  using datafiles_empty_iff [OF assms]
  by (auto simp: check_required_def)

lemma check_required_warnings:
  "check_required st rd = Inr ws \<Longrightarrow>
   ws = (if taken st Layout then [] else [layout_warning]) @
        (if taken st Settings then [] else [settings_warning])"
  by (auto simp: check_required_def layout_warning_def settings_warning_def split: if_splits)

text \<open>
  C4. \<open>read_fhd\<close> raises on its file list exactly when a role has two files, or no
  data file comes with \<open>read_data\<close>, or no obs file comes without \<open>read_data\<close>, or the
  params file or the flags file is missing; a role with two files gives the message
  \<open>multiple ... in filelist\<close> of such a role; a name of no role is ignored; and when
  nothing is raised, a missing layout or settings file gives its warning and nothing else.
\<close>

theorem read_fhd_filelist_errors:
  "((\<exists>e. read_fhd_filelist fl um rd = Inl e) \<longleftrightarrow>
      (\<exists>r. 2 \<le> role_count (data_name um) fl r) \<or>
      (rd \<and> (\<forall>r \<in> data_roles. \<not> has_role (data_name um) fl r)) \<or>
      (\<not> rd \<and> \<not> has_role (data_name um) fl Obs) \<or>
      \<not> has_role (data_name um) fl Params \<or>
      \<not> has_role (data_name um) fl Flags) \<and>
   ((\<exists>r. 2 \<le> role_count (data_name um) fl r) \<longrightarrow>
      (\<exists>r. 2 \<le> role_count (data_name um) fl r \<and>
           read_fhd_filelist fl um rd =
             Inl (ValueError (''multiple '' @ role_name r @ '' in filelist'')))) \<and>
   read_fhd_filelist (filter (\<lambda>f. file_role (data_name um) f \<noteq> None) fl) um rd =
     read_fhd_filelist fl um rd \<and>
   (\<forall>st ws. read_fhd_filelist fl um rd = Inr (st, ws) \<longrightarrow>
      ws = (if has_role (data_name um) fl Layout then [] else [layout_warning]) @
           (if has_role (data_name um) fl Settings then [] else [settings_warning]))"
proof (intro conjI)
  show "(\<exists>r. 2 \<le> role_count (data_name um) fl r) \<longrightarrow>
      (\<exists>r. 2 \<le> role_count (data_name um) fl r \<and>
           read_fhd_filelist fl um rd =
             Inl (ValueError (''multiple '' @ role_name r @ '' in filelist'')))"
    using read_fhd_filelist_dup [of um fl _ rd] by (auto simp: dup_message_def)
  show "read_fhd_filelist (filter (\<lambda>f. file_role (data_name um) f \<noteq> None) fl) um rd =
     read_fhd_filelist fl um rd"
    by (simp only: read_fhd_filelist_def add_files_ignores)
  show "(\<exists>e. read_fhd_filelist fl um rd = Inl e) \<longleftrightarrow>
      (\<exists>r. 2 \<le> role_count (data_name um) fl r) \<or>
      (rd \<and> (\<forall>r \<in> data_roles. \<not> has_role (data_name um) fl r)) \<or>
      (\<not> rd \<and> \<not> has_role (data_name um) fl Obs) \<or>
      \<not> has_role (data_name um) fl Params \<or>
      \<not> has_role (data_name um) fl Flags"
  proof (cases "\<exists>r. 2 \<le> role_count (data_name um) fl r")
    case True
    then obtain r where "2 \<le> role_count (data_name um) fl r" ..
    from read_fhd_filelist_dup [OF this, of rd] True show ?thesis by auto
  next
    case False
    then have "\<forall>r. \<not> 2 \<le> role_count (data_name um) fl r" by blast
    from read_fhd_filelist_nodup [OF this, of rd] obtain st where
      st: "known_keys st" "\<forall>r. taken st r \<longleftrightarrow> has_role (data_name um) fl r"
        "read_fhd_filelist fl um rd =
           (case check_required st rd of Inl e \<Rightarrow> Inl e | Inr ws \<Rightarrow> Inr (st, ws))"
      by blast
    have "(\<exists>e. read_fhd_filelist fl um rd = Inl e) \<longleftrightarrow> (\<exists>e. check_required st rd = Inl e)"
      unfolding st(3) by (cases "check_required st rd") simp_all
    moreover have "(\<exists>e. check_required st rd = Inl e) \<longleftrightarrow>
        (rd \<and> (\<forall>r \<in> data_roles. \<not> has_role (data_name um) fl r)) \<or>
        (\<not> rd \<and> \<not> has_role (data_name um) fl Obs) \<or>
        \<not> has_role (data_name um) fl Params \<or> \<not> has_role (data_name um) fl Flags"
      using check_required_error [OF st(1), of rd] by (simp only: st(2))
    ultimately show ?thesis using False by blast
  qed
  show "\<forall>st ws. read_fhd_filelist fl um rd = Inr (st, ws) \<longrightarrow>
      ws = (if has_role (data_name um) fl Layout then [] else [layout_warning]) @
           (if has_role (data_name um) fl Settings then [] else [settings_warning])"
  proof (intro allI impI)
    fix st ws assume ok: "read_fhd_filelist fl um rd = Inr (st, ws)"
    have nodup: "\<forall>r. \<not> 2 \<le> role_count (data_name um) fl r"
    proof (intro allI notI)
      fix r assume "2 \<le> role_count (data_name um) fl r"
      from read_fhd_filelist_dup [OF this, of rd] ok show False by auto
    qed
    from read_fhd_filelist_nodup [OF this, of rd] obtain st0 where
      st0: "\<forall>r. taken st0 r \<longleftrightarrow> has_role (data_name um) fl r"
        "read_fhd_filelist fl um rd =
           (case check_required st0 rd of Inl e \<Rightarrow> Inl e | Inr ws \<Rightarrow> Inr (st0, ws))"
      by blast
    from ok st0(2) have "check_required st0 rd = Inr ws"
      by (cases "check_required st0 rd") simp_all
    from check_required_warnings [OF this] show
      "ws = (if has_role (data_name um) fl Layout then [] else [layout_warning]) @
           (if has_role (data_name um) fl Settings then [] else [settings_warning])"
      by (simp only: st0(1))
  qed
qed

theorem read_fhd_filelist_errors_witness:
  "2 \<le> role_count (data_name False) [''a_vis_XX.sav'', ''a_params.sav'', ''b_vis_xx.sav''] DataXX \<and>
   (\<exists>e. read_fhd_filelist [''a_vis_XX.sav'', ''a_params.sav'', ''b_vis_xx.sav''] False True = Inl e) \<and>
   read_fhd_filelist [''a_vis_yy.sav'', ''notes.txt'', ''a_params.sav'', ''a_flags.sav''] False True =
     read_fhd_filelist [''a_vis_yy.sav'', ''a_params.sav'', ''a_flags.sav''] False True \<and>
   (\<exists>st. read_fhd_filelist [''a_vis_yy.sav'', ''a_params.sav'', ''a_flags.sav''] False True =
      Inr (st, [layout_warning, settings_warning]))"
proof -
  let ?dup = "[''a_vis_XX.sav'', ''a_params.sav'', ''b_vis_xx.sav'']"
  let ?junk = "[''a_vis_yy.sav'', ''notes.txt'', ''a_params.sav'', ''a_flags.sav'']"
  let ?ok = "[''a_vis_yy.sav'', ''a_params.sav'', ''a_flags.sav'']"
  have d: "2 \<le> role_count (data_name False) ?dup DataXX"
    by code_simp
  have f: "filter (\<lambda>f. file_role (data_name False) f \<noteq> None) ?junk = ?ok"
    by code_simp
  have r: "\<exists>st. read_fhd_filelist ?ok False True = Inr (st, [layout_warning, settings_warning])"
    by (simp add: read_fhd_filelist_def add_file_def add_datafile_def data_name_def
        endswith_def lower_def lower_char_def no_files_def check_required_def
        layout_warning_def settings_warning_def)
  from d read_fhd_filelist_errors [of ?dup False True] have 1:
    "\<exists>e. read_fhd_filelist ?dup False True = Inl e" by blast
  from read_fhd_filelist_errors [of ?junk False True] f have 2:
    "read_fhd_filelist ?junk False True = read_fhd_filelist ?ok False True" by simp
  from d 1 2 r show ?thesis by blast
qed

section \<open>Properties of the telescope location\<close>

text \<open>
  C5. With an \<open>itrf\<close> layout whose array center and obs-derived location disagree under
  both closeness tests, the location is the obs-derived one if the obs position matches
  the registry, else the layout one if it matches the registry, else the registry one if
  the telescope is known, else the obs-derived one, each with one warning that names
  the source used; with any other frame the obs latitude, longitude and altitude are
  assigned without a comparison and without a warning.
\<close>

theorem read_fhd_location_precedence:
  "(lower frame = ''itrf'' \<and> LatLonAlt_from_XYZ h arr_center rca = Inr center_lla \<and>
    \<not> xyz_close t (XYZ_from_LatLonAlt h lat lon alt) arr_center \<and>
    \<not> latlonalt_close t (lat, lon, alt) center_lla \<longrightarrow>
      (\<forall>tel. get_telescope h name = Some tel \<and>
             latlonalt_close t (lat, lon, alt) (telescope_location_lat_lon_alt tel) \<longrightarrow>
         read_fhd_location h t frame arr_center lat lon alt name rca =
           Inr (Set_location (XYZ_from_LatLonAlt h lat lon alt),
                [mismatch_message @ obs_matches_message])) \<and>
      (\<forall>tel. get_telescope h name = Some tel \<and>
             \<not> latlonalt_close t (lat, lon, alt) (telescope_location_lat_lon_alt tel) \<and>
             xyz_close t arr_center (telescope_location tel) \<longrightarrow>
         read_fhd_location h t frame arr_center lat lon alt name rca =
           Inr (Set_location arr_center, [mismatch_message @ layout_matches_message])) \<and>
      (\<forall>tel. get_telescope h name = Some tel \<and>
             \<not> latlonalt_close t (lat, lon, alt) (telescope_location_lat_lon_alt tel) \<and>
             \<not> xyz_close t arr_center (telescope_location tel) \<longrightarrow>
         read_fhd_location h t frame arr_center lat lon alt name rca =
           Inr (Set_location (telescope_location tel),
                [mismatch_message @ neither_matches_message])) \<and>
      (get_telescope h name = None \<longrightarrow>
         read_fhd_location h t frame arr_center lat lon alt name rca =
           Inr (Set_location (XYZ_from_LatLonAlt h lat lon alt),
                [mismatch_message @ unknown_telescope_message]))) \<and>
   (lower frame \<noteq> ''itrf'' \<longrightarrow>
      read_fhd_location h t frame arr_center lat lon alt name rca =
        Inr (Set_lat_lon_alt (lat, lon, alt), []))"
  by (simp add: read_fhd_location_def Let_def)

theorem read_fhd_location_precedence_witness:
  "read_fhd_location
     \<lparr>XYZ_from_LatLonAlt = (\<lambda>la lo al. (al, la, lo)),
      LatLonAlt_from_XYZ = (\<lambda>v chk. case v of (x, y, z) \<Rightarrow> Inr (y, z, x)),
      get_telescope = (\<lambda>n. if n = ''mwa''
         then Some \<lparr>telescope_location = (4, 5, 6), telescope_location_lat_lon_alt = (7, 8, 9)\<rparr>
         else None)\<rparr>
     \<lparr>radian_tols = (0, 0), loc_tols = (0, 0)\<rparr> ''ITRF'' (4, 5, 6) 1 2 3 ''mwa'' True =
     Inr (Set_location (4, 5, 6), [mismatch_message @ layout_matches_message]) \<and>
   read_fhd_location
     \<lparr>XYZ_from_LatLonAlt = (\<lambda>la lo al. (al, la, lo)),
      LatLonAlt_from_XYZ = (\<lambda>v chk. case v of (x, y, z) \<Rightarrow> Inr (y, z, x)),
      get_telescope = (\<lambda>n. if n = ''mwa''
         then Some \<lparr>telescope_location = (4, 5, 6), telescope_location_lat_lon_alt = (7, 8, 9)\<rparr>
         else None)\<rparr>
     \<lparr>radian_tols = (0, 0), loc_tols = (0, 0)\<rparr> ''ITRF'' (4, 5, 6) 1 2 3 ''hera'' True =
     Inr (Set_location (3, 1, 2), [mismatch_message @ unknown_telescope_message]) \<and>
   read_fhd_location
     \<lparr>XYZ_from_LatLonAlt = (\<lambda>la lo al. (al, la, lo)),
      LatLonAlt_from_XYZ = (\<lambda>v chk. case v of (x, y, z) \<Rightarrow> Inr (y, z, x)),
      get_telescope = (\<lambda>n. if n = ''mwa''
         then Some \<lparr>telescope_location = (4, 5, 6), telescope_location_lat_lon_alt = (7, 8, 9)\<rparr>
         else None)\<rparr>
     \<lparr>radian_tols = (0, 0), loc_tols = (0, 0)\<rparr> ''local'' (4, 5, 6) 1 2 3 ''mwa'' True =
     Inr (Set_lat_lon_alt (1, 2, 3), [])"
proof -
  let ?h = "\<lparr>XYZ_from_LatLonAlt = (\<lambda>la lo al. (al, la, lo)),
      LatLonAlt_from_XYZ = (\<lambda>v chk. case v of (x, y, z) \<Rightarrow> Inr (y, z, x)),
      get_telescope = (\<lambda>n. if n = ''mwa''
         then Some \<lparr>telescope_location = (4::real, 5::real, 6::real),
                    telescope_location_lat_lon_alt = (7::real, 8::real, 9::real)\<rparr>
         else None)\<rparr>"
  let ?t = "\<lparr>radian_tols = (0::real, 0::real), loc_tols = (0::real, 0::real)\<rparr>"
  have itrf: "lower ''ITRF'' = ''itrf''" by code_simp
  have loc: "lower ''local'' \<noteq> ''itrf''" by code_simp
  have conv: "LatLonAlt_from_XYZ ?h (4, 5, 6) True = Inr (5, 6, 4)" by simp
  have far: "\<not> xyz_close ?t (XYZ_from_LatLonAlt ?h 1 2 3) (4, 5, 6)"
    "\<not> latlonalt_close ?t (1, 2, 3) (5, 6, 4)"
    by (simp_all add: xyz_close_def latlonalt_close_def isclose_def)
  have mwa: "get_telescope ?h ''mwa'' =
      Some \<lparr>telescope_location = (4, 5, 6), telescope_location_lat_lon_alt = (7, 8, 9)\<rparr>"
    "\<not> latlonalt_close ?t (1, 2, 3) (7, 8, 9)" "xyz_close ?t (4, 5, 6) (4, 5, 6)"
    by (simp_all add: xyz_close_def latlonalt_close_def isclose_def)
  have hera: "get_telescope ?h ''hera'' = None" by simp
  have 1: "read_fhd_location ?h ?t ''ITRF'' (4, 5, 6) 1 2 3 ''mwa'' True =
     Inr (Set_location (4, 5, 6), [mismatch_message @ layout_matches_message])"
    using read_fhd_location_precedence
      [of "''ITRF''" ?h "(4, 5, 6)" True "(5, 6, 4)" ?t 1 2 3 "''mwa''"]
      itrf conv far mwa by simp
  have 2: "read_fhd_location ?h ?t ''ITRF'' (4, 5, 6) 1 2 3 ''hera'' True =
     Inr (Set_location (3, 1, 2), [mismatch_message @ unknown_telescope_message])"
    using read_fhd_location_precedence
      [of "''ITRF''" ?h "(4, 5, 6)" True "(5, 6, 4)" ?t 1 2 3 "''hera''"]
      itrf conv far hera by simp
  have 3: "read_fhd_location ?h ?t ''local'' (4, 5, 6) 1 2 3 ''mwa'' True =
     Inr (Set_lat_lon_alt (1, 2, 3), [])"
    using read_fhd_location_precedence
      [of "''local''" ?h "(4, 5, 6)" True "(5, 6, 4)" ?t 1 2 3 "''mwa''"] loc
    by blast
  from 1 2 3 show ?thesis by blast
qed

section \<open>Properties of the scalar fields of the layout\<close>

lemma then_do_Inr:
  "then_do m f = Inr y \<longleftrightarrow> (\<exists>x. m = Inr x \<and> f x = Inr y)"
  by (cases m) (simp_all add: then_do_def)

text \<open>No run of lines 466-484 assigns the antenna diameters.\<close>

lemma read_layout_scalars_diameters_unchanged:
  assumes "read_layout_scalars l layout_fields uv = Inr (uv', layout_fields')"
  shows "antenna_diameters uv' = antenna_diameters uv"
  using assms
  by (auto simp: read_layout_scalars_def then_do_Inr Let_def get_field_def split: if_splits)

text \<open>
  C7. A layout with a \<open>diameters\<close> field, read with no attribute set before: the five
  other scalars are copied, \<open>diameters\<close> is removed from the field names, and the antenna
  diameters remain unset.
\<close>

theorem read_layout_scalars_drops_diameters:
  "read_layout_scalars
     \<lparr>names = [''gst0'', ''ref_date'', ''earth_degpd'', ''dut1'', ''time_system'', ''diameters''],
      gst0_field = 1, ref_date_field = ''2013-08-23'', earth_degpd_field = 360,
      dut1_field = 0, time_system_field = ''utc'', diameters_field = [14, 14]\<rparr>
     [''gst0'', ''ref_date'', ''earth_degpd'', ''dut1'', ''time_system'', ''diameters'']
     \<lparr>gst0 = None, rdate = None, earth_omega = None, dut1 = None, timesys = None,
      antenna_diameters = None\<rparr> =
   Inr (\<lparr>gst0 = Some 1, rdate = Some ''2013-08-23'', earth_omega = Some 360, dut1 = Some 0,
         timesys = Some ''UTC'', antenna_diameters = None\<rparr>, [])"
proof -
  have up: "strip (upper ''utc'') = ''UTC''" by code_simp
  have lo: "lower ''2013-08-23'' = ''2013-08-23''" by code_simp
  show ?thesis
    by (simp add: read_layout_scalars_def then_do_def get_field_def remove_field_def Let_def
        up lo)
qed

section \<open>Properties of the uvw and data arrays\<close>

lemma read_fhd_uvw_ok:
  assumes "length VV = length UU" "length WW = length UU"
  shows "\<exists>a. read_fhd_uvw c UU VV WW = Inr a \<and> shape2 a = (length UU, 3) \<and>
           (\<forall>i<length UU. elems2 a i 0 = - (UU ! i * c) \<and> elems2 a i 1 = - (VV ! i * c) \<and>
                           elems2 a i 2 = - (WW ! i * c))"
  using assms
  by (simp add: read_fhd_uvw_def set_column_def zeros2_def then_do_def Let_def)

lemma index_of_Some:
  "index_of x xs = Some i \<Longrightarrow> i < length xs \<and> xs ! i = x"
  by (induction xs arbitrary: i) (auto split: if_splits option.splits)

lemma index_of_mem:
  "x \<in> set xs \<Longrightarrow> \<exists>i. index_of x xs = Some i"
  by (induction xs) auto

lemma linear_pol_dict_inj:
  "linear_pol_dict p = Some n \<Longrightarrow> linear_pol_dict q = Some n \<Longrightarrow> p = q"
  by (auto simp: linear_pol_dict_def split: if_splits)

lemma linear_pol_dict_dom:
  "p \<in> set lin_pol_order \<Longrightarrow> \<exists>n. linear_pol_dict p = Some n"
  by (auto simp: linear_pol_dict_def lin_pol_order_def)

lemma make_pol_list_mem:
  assumes "p \<in> set lin_pol_order" "p \<in> set (map fst vis_data)" "linear_pol_dict p = Some n"
  shows "n \<in> set (make_pol_list vis_data)"
  using assms unfolding make_pol_list_def by (auto intro!: bexI [of _ p])

lemma make_pol_list_length:
  assumes "distinct (map fst vis_data)"
  shows "length (make_pol_list vis_data) \<le> length vis_data"
proof -
  let ?K = "set (map fst vis_data)"
  let ?f = "filter (\<lambda>pol. pol \<in> ?K) lin_pol_order"
  have one: "length (concat (map (\<lambda>pol. case linear_pol_dict pol of Some n \<Rightarrow> [n] | None \<Rightarrow> []) xs))
             \<le> length xs" for xs
    by (induction xs) (auto split: option.splits)
  have d: "distinct ?f" by (simp add: lin_pol_order_def)
  have "length ?f = card (set ?f)" by (rule distinct_card [OF d, symmetric])
  also have "\<dots> \<le> card ?K" by (rule card_mono) auto
  also have "\<dots> = length (map fst vis_data)" using assms by (rule distinct_card)
  finally have "length ?f \<le> length vis_data" by simp
  with one [of ?f] show ?thesis unfolding make_pol_list_def by simp
qed

lemma pol_index_Some:
  "pol_index pl pol = Some i \<Longrightarrow> \<exists>num. linear_pol_dict pol = Some num \<and> i < length pl \<and> pl ! i = num"
  by (auto simp: pol_index_def split: option.splits dest: index_of_Some)

lemma pol_index_inj:
  assumes "pol_index pl p = Some i" "pol_index pl q = Some i"
  shows "p = q"
proof -
  from pol_index_Some [OF assms(1)] pol_index_Some [OF assms(2)]
  obtain n where "linear_pol_dict p = Some n" "linear_pol_dict q = Some n" by auto
  then show ?thesis by (rule linear_pol_dict_inj)
qed

lemma set_pol_ok:
  assumes "shape4 a = (nb, 1, nf, np)" "pol_i < np" "shape2 src = (nb, nf)"
  shows "\<exists>a'. set_pol a pol_i src = Inr a' \<and> shape4 a' = (nb, 1, nf, np) \<and>
           (\<forall>i<nb. \<forall>j<nf. elems4 a' i 0 j pol_i = elems2 src i j) \<and>
           (\<forall>i s j p. p \<noteq> pol_i \<longrightarrow> elems4 a' i s j p = elems4 a i s j p)"
  using assms by (auto simp: set_pol_def)

lemma fill_data_step:
  assumes "shaped arrs Nblts Nfreqs Npols"
    and "pol_index pl pol = Some pol_i" "pol_i < Npols" "wd pol = Some w"
    and "shape2 vis = (Nblts, Nfreqs)" "shape2 w = (Nblts, Nfreqs)"
  shows "\<exists>arrs1. fill_data pl wd ((pol, vis) # rest) arrs = fill_data pl wd rest arrs1 \<and>
           shaped arrs1 Nblts Nfreqs Npols \<and> written arrs1 Nblts Nfreqs pol_i vis w \<and>
           (\<forall>p. p \<noteq> pol_i \<longrightarrow> same_at arrs1 arrs p)"
proof -
  from assms(1) have sh: "shape4 (data_array arrs) = (Nblts, 1, Nfreqs, Npols)"
    "shape4 (flag_array arrs) = (Nblts, 1, Nfreqs, Npols)"
    "shape4 (nsample_array arrs) = (Nblts, 1, Nfreqs, Npols)"
    by (simp_all add: shaped_def)
  from assms(2) obtain num where num: "linear_pol_dict pol = Some num" "index_of num pl = Some pol_i"
    by (auto simp: pol_index_def split: option.splits)
  from set_pol_ok [OF sh(1) assms(3), of "map_array2 cnj vis"] assms(5)
  obtain d where d: "set_pol (data_array arrs) pol_i (map_array2 cnj vis) = Inr d"
    "shape4 d = (Nblts, 1, Nfreqs, Npols)"
    "\<forall>i<Nblts. \<forall>j<Nfreqs. elems4 d i 0 j pol_i = cnj (elems2 vis i j)"
    "\<forall>i s j p. p \<noteq> pol_i \<longrightarrow> elems4 d i s j p = elems4 (data_array arrs) i s j p"
    by (auto simp: map_array2_def)
  from set_pol_ok [OF sh(2) assms(3), of "map_array2 (\<lambda>x. x \<le> 0) w"] assms(6)
  obtain f where f: "set_pol (flag_array arrs) pol_i (map_array2 (\<lambda>x. x \<le> 0) w) = Inr f"
    "shape4 f = (Nblts, 1, Nfreqs, Npols)"
    "\<forall>i<Nblts. \<forall>j<Nfreqs. elems4 f i 0 j pol_i = (elems2 w i j \<le> 0)"
    "\<forall>i s j p. p \<noteq> pol_i \<longrightarrow> elems4 f i s j p = elems4 (flag_array arrs) i s j p"
    by (auto simp: map_array2_def)
  from set_pol_ok [OF sh(3) assms(3), of "map_array2 abs w"] assms(6)
  obtain n where n: "set_pol (nsample_array arrs) pol_i (map_array2 abs w) = Inr n"
    "shape4 n = (Nblts, 1, Nfreqs, Npols)"
    "\<forall>i<Nblts. \<forall>j<Nfreqs. elems4 n i 0 j pol_i = \<bar>elems2 w i j\<bar>"
    "\<forall>i s j p. p \<noteq> pol_i \<longrightarrow> elems4 n i s j p = elems4 (nsample_array arrs) i s j p"
    by (auto simp: map_array2_def)
  let ?a = "\<lparr>data_array = d, flag_array = f, nsample_array = n\<rparr>"
  have "fill_data pl wd ((pol, vis) # rest) arrs = fill_data pl wd rest ?a"
    using num assms(4) d(1) f(1) n(1) by simp
  moreover have "shaped ?a Nblts Nfreqs Npols" using d(2) f(2) n(2) by (simp add: shaped_def)
  moreover have "written ?a Nblts Nfreqs pol_i vis w" using d(3) f(3) n(3) by (simp add: written_def)
  moreover have "\<forall>p. p \<noteq> pol_i \<longrightarrow> same_at ?a arrs p" using d(4) f(4) n(4) by (simp add: same_at_def)
  ultimately show ?thesis by blast
qed

lemma written_same_at:
  "written a Nblts Nfreqs p vis w \<Longrightarrow> same_at b a p \<Longrightarrow> written b Nblts Nfreqs p vis w"
  by (simp add: written_def same_at_def)

lemma same_at_trans: "same_at a b p \<Longrightarrow> same_at b c p \<Longrightarrow> same_at a c p"
  by (simp add: same_at_def)

lemma fill_data_inv:
  assumes "shaped arrs Nblts Nfreqs Npols"
    and "\<forall>pv \<in> set rest. readable pl wd Nblts Nfreqs Npols pv"
    and "distinct (map fst rest)"
  shows "\<exists>arrs'. fill_data pl wd rest arrs = Inr arrs' \<and> shaped arrs' Nblts Nfreqs Npols \<and>
           (\<forall>pv \<in> set rest. \<forall>pol_i w. pol_index pl (fst pv) = Some pol_i \<longrightarrow>
              wd (fst pv) = Some w \<longrightarrow> written arrs' Nblts Nfreqs pol_i (snd pv) w) \<and>
           (\<forall>p. (\<forall>pv \<in> set rest. pol_index pl (fst pv) \<noteq> Some p) \<longrightarrow> same_at arrs' arrs p)"
  using assms
proof (induction rest arbitrary: arrs)
  case Nil
  then show ?case by (simp add: same_at_def)
next
  case (Cons pv rest)
  obtain pol vis where pv: "pv = (pol, vis)" by (cases pv)
  from Cons.prems(2) pv obtain pol_i w where r:
    "pol_index pl pol = Some pol_i" "pol_i < Npols" "wd pol = Some w"
    "shape2 vis = (Nblts, Nfreqs)" "shape2 w = (Nblts, Nfreqs)"
    by (auto simp: readable_def)
  from fill_data_step [where wd = wd and pol = pol and rest = rest, OF Cons.prems(1) r] obtain arrs1 where a1:
    "fill_data pl wd ((pol, vis) # rest) arrs = fill_data pl wd rest arrs1"
    "shaped arrs1 Nblts Nfreqs Npols" "written arrs1 Nblts Nfreqs pol_i vis w"
    "\<forall>p. p \<noteq> pol_i \<longrightarrow> same_at arrs1 arrs p"
    by blast
  from Cons.prems(2,3) have rest: "\<forall>pv \<in> set rest. readable pl wd Nblts Nfreqs Npols pv"
    "distinct (map fst rest)" by simp_all
  from Cons.IH [OF a1(2) rest] obtain arrs' where a':
    "fill_data pl wd rest arrs1 = Inr arrs'" "shaped arrs' Nblts Nfreqs Npols"
    "\<forall>pv \<in> set rest. \<forall>pol_i w. pol_index pl (fst pv) = Some pol_i \<longrightarrow>
        wd (fst pv) = Some w \<longrightarrow> written arrs' Nblts Nfreqs pol_i (snd pv) w"
    "\<forall>p. (\<forall>pv \<in> set rest. pol_index pl (fst pv) \<noteq> Some p) \<longrightarrow> same_at arrs' arrs1 p"
    by blast
  have fresh: "\<forall>qv \<in> set rest. pol_index pl (fst qv) \<noteq> Some pol_i"
  proof (intro ballI notI)
    fix qv assume q: "qv \<in> set rest" "pol_index pl (fst qv) = Some pol_i"
    from q(2) r(1) have "fst qv = pol" by (rule pol_index_inj)
    with q(1) have "pol \<in> set (map fst rest)" by force
    with Cons.prems(3) pv show False by simp
  qed
  with a'(4) have keep: "same_at arrs' arrs1 pol_i" by blast
  have head: "written arrs' Nblts Nfreqs pol_i vis w"
    using a1(3) keep by (rule written_same_at)
  have w: "\<forall>qv \<in> set (pv # rest). \<forall>pol_i w. pol_index pl (fst qv) = Some pol_i \<longrightarrow>
        wd (fst qv) = Some w \<longrightarrow> written arrs' Nblts Nfreqs pol_i (snd qv) w"
    using a'(3) head r(1,3) pv by auto
  have fr: "\<forall>p. (\<forall>qv \<in> set (pv # rest). pol_index pl (fst qv) \<noteq> Some p) \<longrightarrow> same_at arrs' arrs p"
  proof (intro allI impI)
    fix p assume p: "\<forall>qv \<in> set (pv # rest). pol_index pl (fst qv) \<noteq> Some p"
    with r(1) pv have "p \<noteq> pol_i" by auto
    with a1(4) have "same_at arrs1 arrs p" by blast
    moreover from p a'(4) have "same_at arrs' arrs1 p" by simp
    ultimately show "same_at arrs' arrs p" by (rule same_at_trans [rotated])
  qed
  from a1(1) a'(1,2) w fr pv show ?case by auto
qed

lemma read_fhd_data_ok:
  assumes d: "distinct (map fst vis_data)"
    and ok: "\<forall>pv \<in> set vis_data. fst pv \<in> set lin_pol_order \<and> shape2 (snd pv) = (Nblts, Nfreqs) \<and>
               (\<exists>w. vis_weights_data (fst pv) = Some w \<and> shape2 w = (Nblts, Nfreqs))"
  shows "\<exists>arrs. read_fhd_data vis_data vis_weights_data Nblts Nfreqs = Inr arrs \<and>
           shaped arrs Nblts Nfreqs (length vis_data) \<and>
           (\<forall>pv \<in> set vis_data. \<exists>pol_i w.
              pol_index (make_pol_list vis_data) (fst pv) = Some pol_i \<and>
              pol_i < length vis_data \<and> vis_weights_data (fst pv) = Some w \<and>
              written arrs Nblts Nfreqs pol_i (snd pv) w)"
proof -
  let ?pl = "make_pol_list vis_data"
  let ?n = "length vis_data"
  let ?z = "\<lparr>data_array = zeros4 (Nblts, 1, Nfreqs, ?n) 0,
            flag_array = zeros4 (Nblts, 1, Nfreqs, ?n) False,
            nsample_array = zeros4 (Nblts, 1, Nfreqs, ?n) 0\<rparr>"
  have sh: "shaped ?z Nblts Nfreqs ?n" by (simp add: shaped_def zeros4_def)
  have rd: "\<forall>pv \<in> set vis_data. readable ?pl vis_weights_data Nblts Nfreqs ?n pv"
  proof
    fix pv assume pv: "pv \<in> set vis_data"
    with ok have o: "fst pv \<in> set lin_pol_order" "shape2 (snd pv) = (Nblts, Nfreqs)"
      and "\<exists>w. vis_weights_data (fst pv) = Some w \<and> shape2 w = (Nblts, Nfreqs)" by auto
    then obtain w where w: "vis_weights_data (fst pv) = Some w" "shape2 w = (Nblts, Nfreqs)"
      by blast
    from linear_pol_dict_dom [OF o(1)] obtain num where num: "linear_pol_dict (fst pv) = Some num" ..
    from pv have "fst pv \<in> set (map fst vis_data)" by simp
    from index_of_mem [OF make_pol_list_mem [OF o(1) this num]]
    obtain i where i: "index_of num ?pl = Some i" ..
    from index_of_Some [OF i] have "i < length ?pl" by simp
    with make_pol_list_length [OF d] have "i < ?n" by simp
    with i num w o(2) show "readable ?pl vis_weights_data Nblts Nfreqs ?n pv"
      by (auto simp: readable_def pol_index_def)
  qed
  from fill_data_inv [OF sh rd d] obtain arrs where a:
    "fill_data ?pl vis_weights_data vis_data ?z = Inr arrs" "shaped arrs Nblts Nfreqs ?n"
    "\<forall>pv \<in> set vis_data. \<forall>pol_i w. pol_index ?pl (fst pv) = Some pol_i \<longrightarrow>
        vis_weights_data (fst pv) = Some w \<longrightarrow> written arrs Nblts Nfreqs pol_i (snd pv) w"
    by blast
  have "\<forall>pv \<in> set vis_data. \<exists>pol_i w.
          pol_index ?pl (fst pv) = Some pol_i \<and> pol_i < ?n \<and>
          vis_weights_data (fst pv) = Some w \<and> written arrs Nblts Nfreqs pol_i (snd pv) w"
  proof
    fix pv assume pv: "pv \<in> set vis_data"
    with rd obtain pol_i w where "pol_index ?pl (fst pv) = Some pol_i" "pol_i < ?n"
      "vis_weights_data (fst pv) = Some w" by (auto simp: readable_def)
    with a(3) pv show "\<exists>pol_i w. pol_index ?pl (fst pv) = Some pol_i \<and> pol_i < ?n \<and>
          vis_weights_data (fst pv) = Some w \<and> written arrs Nblts Nfreqs pol_i (snd pv) w"
      by blast
  qed
  with a(1,2) show ?thesis by (auto simp: read_fhd_data_def Let_def)
qed

text \<open>
  C3. When the three params arrays have one length, \<open>read_fhd\<close> sets each component of
  \<open>uvw_array\<close> to minus the \<open>UU\<close>, \<open>VV\<close> or \<open>WW\<close> value times the speed of light. When the data
  files are of the four linear polarizations, each with its weights and all of the
  shape \<open>(Nblts, Nfreqs)\<close>, the data are read and, for each polarization at its index in
  the polarization list, \<open>data_array\<close> is the conjugate of the stored visibility,
  \<open>flag_array\<close> is \<open>weights \<le> 0\<close> and \<open>nsample_array\<close> is \<open>abs(weights)\<close>.
\<close>

theorem read_fhd_uvw_and_data:
  "(length VV = length UU \<and> length WW = length UU \<longrightarrow>
      (\<exists>a. read_fhd_uvw c UU VV WW = Inr a \<and> shape2 a = (length UU, 3) \<and>
           (\<forall>i<length UU. elems2 a i 0 = - (UU ! i * c) \<and> elems2 a i 1 = - (VV ! i * c) \<and>
                           elems2 a i 2 = - (WW ! i * c)))) \<and>
   (distinct (map fst vis_data) \<and>
    (\<forall>pv \<in> set vis_data. fst pv \<in> set lin_pol_order \<and> shape2 (snd pv) = (Nblts, Nfreqs) \<and>
       (\<exists>w. vis_weights_data (fst pv) = Some w \<and> shape2 w = (Nblts, Nfreqs))) \<longrightarrow>
      (\<exists>arrs. read_fhd_data vis_data vis_weights_data Nblts Nfreqs = Inr arrs \<and>
          shaped arrs Nblts Nfreqs (length vis_data) \<and>
          (\<forall>pv \<in> set vis_data. \<exists>pol_i w.
             pol_index (make_pol_list vis_data) (fst pv) = Some pol_i \<and>
             pol_i < length vis_data \<and> vis_weights_data (fst pv) = Some w \<and>
             (\<forall>i<Nblts. \<forall>j<Nfreqs.
                elems4 (data_array arrs) i 0 j pol_i = cnj (elems2 (snd pv) i j) \<and>
                elems4 (flag_array arrs) i 0 j pol_i = (elems2 w i j \<le> 0) \<and>
                elems4 (nsample_array arrs) i 0 j pol_i = \<bar>elems2 w i j\<bar>))))"
proof (intro conjI impI)
  assume "length VV = length UU \<and> length WW = length UU"
  then show "\<exists>a. read_fhd_uvw c UU VV WW = Inr a \<and> shape2 a = (length UU, 3) \<and>
           (\<forall>i<length UU. elems2 a i 0 = - (UU ! i * c) \<and> elems2 a i 1 = - (VV ! i * c) \<and>
                           elems2 a i 2 = - (WW ! i * c))"
    by (intro read_fhd_uvw_ok) simp_all
next
  assume a: "distinct (map fst vis_data) \<and>
    (\<forall>pv \<in> set vis_data. fst pv \<in> set lin_pol_order \<and> shape2 (snd pv) = (Nblts, Nfreqs) \<and>
       (\<exists>w. vis_weights_data (fst pv) = Some w \<and> shape2 w = (Nblts, Nfreqs)))"
  note d = a [THEN conjunct1] and ok = a [THEN conjunct2]
  from read_fhd_data_ok [OF d ok] show
    "\<exists>arrs. read_fhd_data vis_data vis_weights_data Nblts Nfreqs = Inr arrs \<and>
          shaped arrs Nblts Nfreqs (length vis_data) \<and>
          (\<forall>pv \<in> set vis_data. \<exists>pol_i w.
             pol_index (make_pol_list vis_data) (fst pv) = Some pol_i \<and>
             pol_i < length vis_data \<and> vis_weights_data (fst pv) = Some w \<and>
             (\<forall>i<Nblts. \<forall>j<Nfreqs.
                elems4 (data_array arrs) i 0 j pol_i = cnj (elems2 (snd pv) i j) \<and>
                elems4 (flag_array arrs) i 0 j pol_i = (elems2 w i j \<le> 0) \<and>
                elems4 (nsample_array arrs) i 0 j pol_i = \<bar>elems2 w i j\<bar>))"
    by (simp only: written_def)
qed

theorem read_fhd_uvw_and_data_witness:
  "(\<exists>a. read_fhd_uvw 3 [1, 2] [3, 4] [5, 6] = Inr a \<and>
        elems2 a 1 0 = - 6 \<and> elems2 a 1 1 = - 12 \<and> elems2 a 1 2 = - 18) \<and>
   (\<exists>arrs. read_fhd_data
        [(''yy'', \<lparr>shape2 = (1, 1), elems2 = (\<lambda>i j. Complex 1 2)\<rparr>)]
        [''yy'' \<mapsto> \<lparr>shape2 = (1, 1), elems2 = (\<lambda>i j. - 1)\<rparr>] 1 1 = Inr arrs \<and>
      elems4 (data_array arrs) 0 0 0 0 = Complex 1 (- 2) \<and>
      elems4 (flag_array arrs) 0 0 0 0 = True \<and>
      elems4 (nsample_array arrs) 0 0 0 0 = 1)"
proof -
  let ?vis = "\<lparr>shape2 = (1::nat, 1::nat), elems2 = (\<lambda>i j. Complex 1 2)\<rparr>"
  let ?w = "\<lparr>shape2 = (1::nat, 1::nat), elems2 = (\<lambda>i j. - 1 :: real)\<rparr>"
  let ?vd = "[(''yy'', ?vis)]"
  let ?wd = "[''yy'' \<mapsto> ?w]"
  note t = read_fhd_uvw_and_data [of "[3, 4]" "[1, 2]" "[5, 6]" 3 ?vd 1 1 ?wd]
  have l: "length [3, 4 :: real] = length [1, 2 :: real] \<and>
           length [5, 6 :: real] = length [1, 2 :: real]"
    by simp
  from t [THEN conjunct1, THEN mp, OF l] obtain a where
    a: "read_fhd_uvw 3 [1, 2] [3, 4] [5, 6] = Inr a"
    and e: "\<forall>i<length [1, 2 :: real]. elems2 a i 0 = - ([1, 2] ! i * 3) \<and>
        elems2 a i 1 = - ([3, 4] ! i * 3) \<and> elems2 a i 2 = - ([5, 6] ! i * 3)"
    by blast
  from e [rule_format, of 1] have "elems2 a 1 0 = - 6 \<and> elems2 a 1 1 = - 12 \<and> elems2 a 1 2 = - 18"
    by simp
  with a have 1: "\<exists>a. read_fhd_uvw 3 [1, 2] [3, 4] [5, 6] = Inr a \<and>
        elems2 a 1 0 = - 6 \<and> elems2 a 1 1 = - 12 \<and> elems2 a 1 2 = - 18" by blast
  have h: "distinct (map fst ?vd) \<and>
    (\<forall>pv \<in> set ?vd. fst pv \<in> set lin_pol_order \<and> shape2 (snd pv) = (1, 1) \<and>
       (\<exists>w. ?wd (fst pv) = Some w \<and> shape2 w = (1, 1)))"
    by (simp add: lin_pol_order_def)
  from t [THEN conjunct2, THEN mp, OF h] obtain arrs where
    r: "read_fhd_data ?vd ?wd 1 1 = Inr arrs"
    and all: "\<forall>pv \<in> set ?vd. \<exists>pol_i w.
             pol_index (make_pol_list ?vd) (fst pv) = Some pol_i \<and>
             pol_i < length ?vd \<and> ?wd (fst pv) = Some w \<and>
             (\<forall>i<1. \<forall>j<1.
                elems4 (data_array arrs) i 0 j pol_i = cnj (elems2 (snd pv) i j) \<and>
                elems4 (flag_array arrs) i 0 j pol_i = (elems2 w i j \<le> 0) \<and>
                elems4 (nsample_array arrs) i 0 j pol_i = \<bar>elems2 w i j\<bar>)"
    by blast
  from all [rule_format, of "(''yy'', ?vis)"] obtain pol_i w where
    pw: "pol_i < length ?vd" "?wd ''yy'' = Some w"
    and v: "\<forall>i<1. \<forall>j<1.
                elems4 (data_array arrs) i 0 j pol_i = cnj (elems2 ?vis i j) \<and>
                elems4 (flag_array arrs) i 0 j pol_i = (elems2 w i j \<le> 0) \<and>
                elems4 (nsample_array arrs) i 0 j pol_i = \<bar>elems2 w i j\<bar>"
    by auto
  from pw(1) have p: "pol_i = 0" by simp
  from pw(2) have w: "w = ?w" by simp
  from v [rule_format, of 0 0] have vals: "elems4 (data_array arrs) 0 0 0 0 = Complex 1 (- 2) \<and>
      elems4 (flag_array arrs) 0 0 0 0 = True \<and> elems4 (nsample_array arrs) 0 0 0 0 = 1"
    unfolding p w by (simp add: complex_eq_iff)
  have 2: "\<exists>arrs. read_fhd_data ?vd ?wd 1 1 = Inr arrs \<and>
      elems4 (data_array arrs) 0 0 0 0 = Complex 1 (- 2) \<and>
      elems4 (flag_array arrs) 0 0 0 0 = True \<and>
      elems4 (nsample_array arrs) 0 0 0 0 = 1"
    by (rule exI [of _ arrs]) (rule conjI [OF r vals])
  from 1 2 show ?thesis by (rule conjI)
qed

section \<open>Properties of the utility functions\<close>

lemma extended_roundtrip:
  assumes "0 \<le> ant1" "0 \<le> ant2" "ant2 < 2048"
  shows "baseline_to_antnums (2048 * ant1 + ant2 + 2 ^ 16 + 1) N = (ant1, ant2)"
proof -
  have "2048 * ant1 + ant2 + 2 ^ 16 + 1 > (2 ^ 16 :: int)" using assms by simp
  moreover have "(2048 * ant1 + ant2) div 2048 = ant1" using assms by simp
  moreover have "(2048 * ant1 + ant2) mod 2048 = ant2" using assms by simp
  ultimately show ?thesis by (simp add: baseline_to_antnums_def)
qed

lemma legacy_roundtrip:
  assumes "0 \<le> ant1" "ant1 \<le> 255" "0 \<le> ant2" "ant2 \<le> 255"
  shows "baseline_to_antnums (256 * ant1 + ant2) N = (ant1, ant2)"
proof -
  have "\<not> 256 * ant1 + ant2 > (2 ^ 16 :: int)" using assms by simp
  moreover have "(256 * ant1 + ant2) div 256 = ant1" using assms by simp
  moreover have "(256 * ant1 + ant2) mod 256 = ant2" using assms by simp
  ultimately show ?thesis by (simp add: baseline_to_antnums_def)
qed

text \<open>
  C2. For antenna numbers in \<open>[0, 300]\<close> decoding the encoded pair gives the pair back,
  in the extended scheme (\<open>attempt256\<close> not requested) and in whichever scheme is chosen
  with \<open>attempt256\<close>; the encoding is \<open>256*ant1 + ant2\<close> when \<open>attempt256\<close> is requested and
  both numbers are at most 255, and \<open>2048*ant1 + ant2 + 2**16 + 1\<close> otherwise; the legacy
  values lie below the threshold \<open>2**16\<close> and the extended ones above it.
\<close>

theorem baseline_roundtrip:
  assumes "0 \<le> ant1" "ant1 \<le> 300" "0 \<le> ant2" "ant2 \<le> 300"
  shows "baseline_to_antnums (antnums_to_baseline ant1 ant2 N attempt256) N = (ant1, ant2) \<and>
         antnums_to_baseline ant1 ant2 N False = 2048 * ant1 + ant2 + 2 ^ 16 + 1 \<and>
         antnums_to_baseline ant1 ant2 N True =
           (if ant1 \<le> 255 \<and> ant2 \<le> 255 then 256 * ant1 + ant2
            else 2048 * ant1 + ant2 + 2 ^ 16 + 1) \<and>
         (ant1 \<le> 255 \<and> ant2 \<le> 255 \<longrightarrow> 256 * ant1 + ant2 < 2 ^ 16) \<and>
         2 ^ 16 < 2048 * ant1 + ant2 + 2 ^ 16 + 1"
proof -
  have "baseline_to_antnums (antnums_to_baseline ant1 ant2 N attempt256) N = (ant1, ant2)"
  proof (cases "attempt256 \<and> ant1 \<le> 255 \<and> ant2 \<le> 255")
    case True
    with assms show ?thesis by (simp add: antnums_to_baseline_def legacy_roundtrip)
  next
    case False
    then have e: "antnums_to_baseline ant1 ant2 N attempt256 = 2048 * ant1 + ant2 + 2 ^ 16 + 1"
      by (auto simp: antnums_to_baseline_def)
    from assms have "baseline_to_antnums (2048 * ant1 + ant2 + 2 ^ 16 + 1) N = (ant1, ant2)"
      by (intro extended_roundtrip) simp_all
    with e show ?thesis by (simp only:)
  qed
  with assms show ?thesis by (simp add: antnums_to_baseline_def)
qed


theorem baseline_roundtrip_witness:
  "baseline_to_antnums (antnums_to_baseline 300 7 301 False) 301 = (300, 7) \<and>
   antnums_to_baseline 300 7 301 False = 679944 \<and>
   baseline_to_antnums (antnums_to_baseline 12 255 301 True) 301 = (12, 255) \<and>
   antnums_to_baseline 12 255 301 True = 3327"
proof -
  have a: "(0::int) \<le> 300" "(300::int) \<le> 300" "(0::int) \<le> 7" "(7::int) \<le> 300" by simp_all
  have b: "(0::int) \<le> 12" "(12::int) \<le> 300" "(0::int) \<le> 255" "(255::int) \<le> 300" by simp_all
  note r = baseline_roundtrip [OF a, of 301 False]
  note l = baseline_roundtrip [OF b, of 301 True]
  have 1: "baseline_to_antnums (antnums_to_baseline 300 7 301 False) 301 = (300, 7)"
    by (rule r [THEN conjunct1])
  have 2: "antnums_to_baseline 300 7 301 False = 679944"
    using r [THEN conjunct2, THEN conjunct1] by simp
  have 3: "baseline_to_antnums (antnums_to_baseline 12 255 301 True) 301 = (12, 255)"
    by (rule l [THEN conjunct1])
  have 4: "antnums_to_baseline 12 255 301 True = 3327"
    using l [THEN conjunct2, THEN conjunct2, THEN conjunct1] by simp
  from 1 2 3 4 show ?thesis by (intro conjI)
qed

lemma uvcalibrate_vis_undo:
  assumes "gain_product g1 g2 \<noteq> 0"
  shows "uvcalibrate_vis convention True g1 g2 (uvcalibrate_vis convention False g1 g2 vis) = vis"
  using assms by (cases convention; cases vis) (simp_all add: uvcalibrate_vis_def Let_def)

lemma uvcalibrate_undo:
  assumes "\<forall>(ant1, ant2, k, vis) \<in> set samples. gain_product (gains ant1 k) (gains ant2 k) \<noteq> 0"
  shows "uvcalibrate convention True gains (uvcalibrate convention False gains samples) = samples"
  using assms
  by (induction samples) (auto simp: uvcalibrate_def uvcalibrate_vis_undo)

lemma uvcalibrate_vis_divide:
  assumes "gain_product g1 g2 \<noteq> 0"
  shows "uvcalibrate_vis Divide False g1 g2 vis = map_option (\<lambda>v. v / (g1 * cnj g2)) vis"
  using assms by (cases vis) (simp_all add: uvcalibrate_vis_def gain_product_def Let_def)

lemma uvcalibrate_vis_multiply:
  "uvcalibrate_vis Multiply False g1 g2 vis = map_option (\<lambda>v. v * (g1 * cnj g2)) vis"
  by (cases vis) (simp_all add: uvcalibrate_vis_def gain_product_def Let_def)

lemma uvcalibrate_divide:
  assumes "\<forall>(ant1, ant2, k, vis) \<in> set samples. gain_product (gains ant1 k) (gains ant2 k) \<noteq> 0"
  shows "uvcalibrate Divide False gains samples =
         map (\<lambda>(ant1, ant2, k, vis).
                (ant1, ant2, k, map_option (\<lambda>v. v / (gains ant1 k * cnj (gains ant2 k))) vis))
             samples"
  using assms
  by (induction samples) (auto simp: uvcalibrate_def uvcalibrate_vis_divide)

lemma uvcalibrate_multiply:
  "uvcalibrate Multiply False gains samples =
   map (\<lambda>(ant1, ant2, k, vis).
          (ant1, ant2, k, map_option (\<lambda>v. v * (gains ant1 k * cnj (gains ant2 k))) vis))
       samples"
  by (induction samples) (auto simp: uvcalibrate_def uvcalibrate_vis_multiply)

text \<open>
  C1, as amended. When no gain product \<open>gain(ant1)\<cdot>conj(gain(ant2))\<close> of a sample is zero,
  the convention \<open>divide\<close> divides each visibility by the product, \<open>multiply\<close> multiplies
  by it, and in both conventions calibrating and then calibrating again with \<open>undo\<close>
  gives the visibility array back (exactly, in exact arithmetic).
\<close>

theorem uvcalibrate_divide_multiply_undo:
  assumes "\<forall>(ant1, ant2, k, vis) \<in> set samples. gain_product (gains ant1 k) (gains ant2 k) \<noteq> 0"
  shows "uvcalibrate Divide False gains samples =
           map (\<lambda>(ant1, ant2, k, vis).
                  (ant1, ant2, k, map_option (\<lambda>v. v / (gains ant1 k * cnj (gains ant2 k))) vis))
               samples \<and>
         uvcalibrate Multiply False gains samples =
           map (\<lambda>(ant1, ant2, k, vis).
                  (ant1, ant2, k, map_option (\<lambda>v. v * (gains ant1 k * cnj (gains ant2 k))) vis))
               samples \<and>
         uvcalibrate Divide True gains (uvcalibrate Divide False gains samples) = samples \<and>
         uvcalibrate Multiply True gains (uvcalibrate Multiply False gains samples) = samples"
  using uvcalibrate_divide [OF assms] uvcalibrate_multiply uvcalibrate_undo [OF assms]
  by (intro conjI) blast+

theorem uvcalibrate_divide_multiply_undo_witness:
  "uvcalibrate Divide False (\<lambda>a k. if a = 1 then \<i> else 2) [(1, 13, (), Some 4)] =
     [(1, 13, (), Some (- 2 * \<i>))] \<and>
   uvcalibrate Divide True (\<lambda>a k. if a = 1 then \<i> else 2)
     (uvcalibrate Divide False (\<lambda>a k. if a = 1 then \<i> else 2) [(1, 13, (), Some 4)]) =
     [(1, 13, (), Some 4)] \<and>
   uvcalibrate Multiply True (\<lambda>a k. if a = 1 then \<i> else 2)
     (uvcalibrate Multiply False (\<lambda>a k. if a = 1 then \<i> else 2) [(1, 13, (), Some 4)]) =
     [(1, 13, (), Some 4)]"
proof -
  let ?g = "\<lambda>(a::nat) (k::unit). if a = 1 then \<i> else 2"
  let ?s = "[(1::nat, 13::nat, (), Some (4::complex))]"
  have h: "\<forall>(ant1, ant2, k, vis) \<in> set ?s. gain_product (?g ant1 k) (?g ant2 k) \<noteq> 0"
    by (simp add: gain_product_def)
  note t = uvcalibrate_divide_multiply_undo [OF h]
  have 1: "uvcalibrate Divide False ?g ?s = [(1, 13, (), Some (- 2 * \<i>))]"
    using t [THEN conjunct1] by (simp add: complex_eq_iff)
  from 1 t [THEN conjunct2, THEN conjunct2, THEN conjunct1]
    t [THEN conjunct2, THEN conjunct2, THEN conjunct2]
  show ?thesis by (intro conjI)
qed

text \<open>
  C1 as stated fails for a zero gain: the multiplied visibility is zero whatever it
  was, and the division that would undo it has no value.
\<close>

theorem uvcalibrate_zero_gain_counterexample:
  "uvcalibrate Multiply True zero_gains (uvcalibrate Multiply False zero_gains (one_sample 1)) \<noteq>
     one_sample 1 \<and>
   uvcalibrate Divide True zero_gains (uvcalibrate Divide False zero_gains (one_sample 1)) \<noteq>
     one_sample 1 \<and>
   uvcalibrate Multiply False zero_gains (one_sample 1) =
     uvcalibrate Multiply False zero_gains (one_sample 2)"
  by (simp add: uvcalibrate_def uvcalibrate_vis_def gain_product_def zero_gains_def
      one_sample_def)

text \<open>
  C6. A UVFlag in metric mode is refused with \<open>UVFlag must be flag mode\<close>. For one in
  flag mode: frequency arrays that differ are refused with the frequency message unless
  the UVFlag has a single frequency; with the frequency axis accepted, time arrays that
  differ are refused with the time message unless the UVFlag has a single time. A UVFlag
  with a single frequency (time) whose other axes are accepted is applied, and a flag it
  holds for a baseline and time (frequency) of the data flags them at every frequency
  (time) of the data.
\<close>

theorem apply_uvflag_checks:
  "(uvf_mode uvf = MetricMode \<longrightarrow>
      apply_uvflag uvd uvf unflag_first flag_missing force_pol =
        Inl (ValueError ''UVFlag must be flag mode'')) \<and>
   (uvf_mode uvf = FlagMode \<and> uvf_freq_array uvf \<noteq> uvd_freq_array uvd \<and>
    length (uvf_freq_array uvf) \<noteq> 1 \<longrightarrow>
      apply_uvflag uvd uvf unflag_first flag_missing force_pol =
        Inl (ValueError ''UVFlag and UVData have mismatched frequency arrays'')) \<and>
   (uvf_mode uvf = FlagMode \<and>
    (uvf_freq_array uvf = uvd_freq_array uvd \<or> length (uvf_freq_array uvf) = 1) \<and>
    uvf_time_array uvf \<noteq> uvd_time_array uvd \<and> length (uvf_time_array uvf) \<noteq> 1 \<longrightarrow>
      apply_uvflag uvd uvf unflag_first flag_missing force_pol =
        Inl (ValueError ''UVFlag and UVData have mismatched time arrays'')) \<and>
   (uvf_mode uvf = FlagMode \<and> length (uvf_freq_array uvf) = 1 \<and>
    (uvf_time_array uvf = uvd_time_array uvd \<or> length (uvf_time_array uvf) = 1) \<and>
    (uvf_polarization_array uvf = uvd_polarization_array uvd \<or> force_pol) \<longrightarrow>
      (\<exists>r. apply_uvflag uvd uvf unflag_first flag_missing force_pol = Inr r \<and>
           (\<forall>b t p. b \<in> set (uvd_baselines uvd) \<and> b \<in> set (uvf_baselines uvf) \<and>
                    \<not> uvf_waterfall uvf \<and> t < length (uvd_time_array uvd) \<and>
                    p < length (uvd_polarization_array uvd) \<and>
                    uvf_flag_array uvf b
                      (if length (uvf_time_array uvf) = 1 then 0 else t) 0
                      (if uvf_polarization_array uvf \<noteq> uvd_polarization_array uvd then 0 else p) \<longrightarrow>
              (\<forall>f < length (uvd_freq_array uvd). uvd_flag_array r b t f p)))) \<and>
   (uvf_mode uvf = FlagMode \<and> length (uvf_time_array uvf) = 1 \<and>
    (uvf_freq_array uvf = uvd_freq_array uvd \<or> length (uvf_freq_array uvf) = 1) \<and>
    (uvf_polarization_array uvf = uvd_polarization_array uvd \<or> force_pol) \<longrightarrow>
      (\<exists>r. apply_uvflag uvd uvf unflag_first flag_missing force_pol = Inr r \<and>
           (\<forall>b f p. b \<in> set (uvd_baselines uvd) \<and> b \<in> set (uvf_baselines uvf) \<and>
                    \<not> uvf_waterfall uvf \<and> f < length (uvd_freq_array uvd) \<and>
                    p < length (uvd_polarization_array uvd) \<and>
                    uvf_flag_array uvf b 0
                      (if length (uvf_freq_array uvf) = 1 then 0 else f)
                      (if uvf_polarization_array uvf \<noteq> uvd_polarization_array uvd then 0 else p) \<longrightarrow>
              (\<forall>t < length (uvd_time_array uvd). uvd_flag_array r b t f p))))"
  by (auto simp: apply_uvflag_def mask_flag_def)

theorem apply_uvflag_checks_witness:
  "apply_uvflag example_uvd (example_uvf MetricMode [1, 2, 3]) False True True =
     Inl (ValueError ''UVFlag must be flag mode'') \<and>
   apply_uvflag example_uvd (example_uvf FlagMode [1, 2]) False True True =
     Inl (ValueError ''UVFlag and UVData have mismatched frequency arrays'') \<and>
   (\<exists>r. apply_uvflag example_uvd (example_uvf FlagMode [1]) False True True = Inr r \<and>
        uvd_flag_array r 7 0 0 0 \<and> uvd_flag_array r 7 0 1 0 \<and> uvd_flag_array r 7 0 2 0)"
proof -
  note m = apply_uvflag_checks [of "example_uvf MetricMode [1, 2, 3]" example_uvd False True True]
  note f = apply_uvflag_checks [of "example_uvf FlagMode [1, 2]" example_uvd False True True]
  note s = apply_uvflag_checks [of "example_uvf FlagMode [1]" example_uvd False True True]
  have 1: "apply_uvflag example_uvd (example_uvf MetricMode [1, 2, 3]) False True True =
     Inl (ValueError ''UVFlag must be flag mode'')"
    by (rule m [THEN conjunct1, THEN mp]) (simp add: example_uvf_def)
  have 2: "apply_uvflag example_uvd (example_uvf FlagMode [1, 2]) False True True =
     Inl (ValueError ''UVFlag and UVData have mismatched frequency arrays'')"
    by (rule f [THEN conjunct2, THEN conjunct1, THEN mp])
      (simp add: example_uvf_def example_uvd_def)
  have "\<exists>r. apply_uvflag example_uvd (example_uvf FlagMode [1]) False True True = Inr r \<and>
        (\<forall>b t p. b \<in> set (uvd_baselines example_uvd) \<and>
                 b \<in> set (uvf_baselines (example_uvf FlagMode [1])) \<and>
                 \<not> uvf_waterfall (example_uvf FlagMode [1]) \<and>
                 t < length (uvd_time_array example_uvd) \<and>
                 p < length (uvd_polarization_array example_uvd) \<and>
                 uvf_flag_array (example_uvf FlagMode [1]) b
                   (if length (uvf_time_array (example_uvf FlagMode [1])) = 1 then 0 else t) 0
                   (if uvf_polarization_array (example_uvf FlagMode [1]) \<noteq>
                       uvd_polarization_array example_uvd then 0 else p) \<longrightarrow>
           (\<forall>f < length (uvd_freq_array example_uvd). uvd_flag_array r b t f p))"
    by (rule s [THEN conjunct2, THEN conjunct2, THEN conjunct2, THEN conjunct1, THEN mp])
      (simp add: example_uvf_def example_uvd_def)
  then obtain r where r: "apply_uvflag example_uvd (example_uvf FlagMode [1]) False True True = Inr r"
    and a: "\<forall>b t p. b \<in> set (uvd_baselines example_uvd) \<and>
                 b \<in> set (uvf_baselines (example_uvf FlagMode [1])) \<and>
                 \<not> uvf_waterfall (example_uvf FlagMode [1]) \<and>
                 t < length (uvd_time_array example_uvd) \<and>
                 p < length (uvd_polarization_array example_uvd) \<and>
                 uvf_flag_array (example_uvf FlagMode [1]) b
                   (if length (uvf_time_array (example_uvf FlagMode [1])) = 1 then 0 else t) 0
                   (if uvf_polarization_array (example_uvf FlagMode [1]) \<noteq>
                       uvd_polarization_array example_uvd then 0 else p) \<longrightarrow>
           (\<forall>f < length (uvd_freq_array example_uvd). uvd_flag_array r b t f p)"
    by (elim exE conjE)
  from a [rule_format, of 7 0 0] have fl: "\<forall>f < 3. uvd_flag_array r 7 0 f 0"
    by (simp add: example_uvf_def example_uvd_def)
  then have "uvd_flag_array r 7 0 0 0 \<and> uvd_flag_array r 7 0 1 0 \<and> uvd_flag_array r 7 0 2 0"
    by simp
  with r have 3: "\<exists>r. apply_uvflag example_uvd (example_uvf FlagMode [1]) False True True = Inr r \<and>
        uvd_flag_array r 7 0 0 0 \<and> uvd_flag_array r 7 0 1 0 \<and> uvd_flag_array r 7 0 2 0"
    by (intro exI [of _ r] conjI) simp_all
  from 1 2 3 show ?thesis by (intro conjI)
qed

end
